theory Spec2Isabelle
  imports Main
begin

section \<open>Errors, channels and contexts\<close>

text \<open>
  A Go \<^verbatim>\<open>error\<close> value. \<open>ErrorString\<close> is what \<^verbatim>\<open>errors.New\<close> and \<^verbatim>\<open>fmt.Errorf\<close>
  build (the message), \<open>AddrError why addr\<close> is \<^verbatim>\<open>net.AddrError{Err: why, Addr: addr}\<close>,
  \<open>Canceled\<close> and \<open>DeadlineExceeded\<close> are the two errors of package \<^verbatim>\<open>context\<close>.
  A nil error is \<open>None\<close> of \<open>error option\<close>; a Go result pair \<^verbatim>\<open>(v, err)\<close> is the
  sum \<open>error + 'a\<close>, \<open>Inl\<close> holding the error.
\<close>

datatype error =
    ErrorString string
  | AddrError string string
  | Canceled
  | DeadlineExceeded

text \<open>A channel of \<^verbatim>\<open>struct{}\<close> that is only ever closed: a receive on it blocks while it is
  \<open>Open\<close> and passes once it is \<open>Closed\<close>.\<close>

datatype chan = Open | Closed

text \<open>A \<^verbatim>\<open>context.Context\<close>: its identity and what \<^verbatim>\<open>ctx.Err()\<close> returns now. The channel
  \<^verbatim>\<open>ctx.Done()\<close> is closed exactly when \<open>ctxErr\<close> is not \<open>None\<close>.\<close>

record "context" =
  ctxId :: nat
  ctxErr :: "error option"

section \<open>The library functions the package calls\<close>

text \<open>\<^verbatim>\<open>strings.Index(s, sep)\<close>: the index of the first occurrence of \<open>sep\<close> in \<open>s\<close>.\<close>

fun Index :: "string \<Rightarrow> string \<Rightarrow> nat option" where
  "Index [] sep = (if sep = [] then Some 0 else None)"
| "Index (c # s) sep =
     (if take (length sep) (c # s) = sep then Some 0 else map_option Suc (Index s sep))"

text \<open>
  The loop of \<^verbatim>\<open>strings.genSplit\<close> (with \<^verbatim>\<open>sepSave = 0\<close>): at most \<open>k\<close> cuts at the
  separator, the rest of the string unsplit in the last element.
\<close>

fun genSplit :: "string \<Rightarrow> string \<Rightarrow> nat \<Rightarrow> string list" where
  "genSplit s sep 0 = [s]"
| "genSplit s sep (Suc k) =
     (case Index s sep of
        None \<Rightarrow> [s]
      | Some m \<Rightarrow> take m s # genSplit (drop (m + length sep) s) sep k)"

text \<open>
  \<^verbatim>\<open>strings.SplitN(s, sep, n)\<close> for a separator that is not empty and \<open>n \<ge> 0\<close>, which is how
  \<open>parsePodAddr\<close> calls it: no element when \<open>n = 0\<close>, otherwise at most \<open>n\<close> elements
  (\<open>n\<close> capped at \<open>length s + 1\<close>, as the library does before it allocates).
\<close>

definition SplitN :: "string \<Rightarrow> string \<Rightarrow> nat \<Rightarrow> string list" where
  "SplitN s sep n = (if n = 0 then [] else genSplit s sep (min n (length s + 1) - 1))"

text \<open>\<^verbatim>\<open>bytealg.IndexByteString\<close> and \<^verbatim>\<open>bytealg.LastIndexByteString\<close>; \<open>None\<close> is \<open>-1\<close>.\<close>

fun IndexByteString :: "string \<Rightarrow> char \<Rightarrow> nat option" where
  "IndexByteString [] c = None"
| "IndexByteString (x # s) c = (if x = c then Some 0 else map_option Suc (IndexByteString s c))"

definition LastIndexByteString :: "string \<Rightarrow> char \<Rightarrow> nat option" where
  "LastIndexByteString s c =
     (case IndexByteString (rev s) c of
        None \<Rightarrow> None
      | Some k \<Rightarrow> Some (length s - 1 - k))"

text \<open>
  \<^verbatim>\<open>net.SplitHostPort(hostport)\<close>: the port is what follows the last colon; a host in
  brackets may contain colons; every malformed input is an \<open>AddrError\<close>.
\<close>

definition SplitHostPort :: "string \<Rightarrow> error + string \<times> string" where
  "SplitHostPort hostport =
     (case LastIndexByteString hostport CHR '':'' of
        None \<Rightarrow> Inl (AddrError ''missing port in address'' hostport)
      | Some i \<Rightarrow>
          if take 1 hostport = ''[''
          then (case IndexByteString hostport CHR '']'' of
                  None \<Rightarrow> Inl (AddrError ''missing ']' in address'' hostport)
                | Some e \<Rightarrow>
                    if e + 1 = length hostport
                    then Inl (AddrError ''missing port in address'' hostport)
                    else if e + 1 = i
                    then (if IndexByteString (drop 1 hostport) CHR ''['' = None
                          then (if IndexByteString (drop (e + 1) hostport) CHR '']'' = None
                                then Inr (take (e - 1) (drop 1 hostport), drop (i + 1) hostport)
                                else Inl (AddrError ''unexpected ']' in address'' hostport))
                          else Inl (AddrError ''unexpected '[' in address'' hostport))
                    else if hostport ! (e + 1) = CHR '':''
                    then Inl (AddrError ''too many colons in address'' hostport)
                    else Inl (AddrError ''missing port in address'' hostport))
          else if IndexByteString (take i hostport) CHR '':'' = None
          then (if IndexByteString hostport CHR ''['' = None
                then (if IndexByteString hostport CHR '']'' = None
                      then Inr (take i hostport, drop (i + 1) hostport)
                      else Inl (AddrError ''unexpected ']' in address'' hostport))
                else Inl (AddrError ''unexpected '[' in address'' hostport))
          else Inl (AddrError ''too many colons in address'' hostport))"

section \<open>Parsing the pod address\<close>

text \<open>
  \<open>parsePodAddr\<close> splits the address at \<open>.\<close> into at most three parts and rejects it
  when there are two parts or fewer; the pod name is the first part, the namespace the
  second.
\<close>

definition parsePodAddr :: "string \<Rightarrow> error + string \<times> string" where
  "parsePodAddr addr =
     (let parts = SplitN addr ''.'' 3 in
      if length parts \<le> 2
      then Inl (ErrorString (''unsupported pod address format: '' @ addr))
      else Inr (parts ! 0, parts ! 1))"

section \<open>The forwarder\<close>

text \<open>
  What a \<^verbatim>\<open>PortForwarder\<close> does for \<open>Run\<close>: its \<^verbatim>\<open>ForwardPorts()\<close> blocks while the session
  lasts and then returns this error (\<open>None\<close> is nil).
\<close>

record PortForwarder =
  ForwardPorts :: "error option"

text \<open>
  \<^verbatim>\<open>PortForwarderFactory.NewPortForwarder(ctx, namespace, podName, ports, readyChan)\<close>. The
  context and the ready channel it receives are the run context and \<open>readyChan\<close> of the
  running system below; the function here is what the factory answers for the namespace,
  the pod name and the port pairs.
\<close>

type_synonym PortForwarderFactory = "string \<Rightarrow> string \<Rightarrow> string list \<Rightarrow> error + PortForwarder"

text \<open>\<^verbatim>\<open>dialerFunc\<close>: a factory for connections, from the context, the network and the address.\<close>

type_synonym 'c dialerFunc = "context \<Rightarrow> string \<Rightarrow> string \<Rightarrow> error + 'c"

text \<open>
  The struct \<^verbatim>\<open>podForwarder\<close>. \<open>initChan\<close> is the channel callers wait on, \<open>viaErr\<close> and
  \<open>viaAddr\<close> start as Go's zero values (nil and the empty string). The embedded
  \<^verbatim>\<open>sync.Mutex\<close> is never locked by the code and has no field here.
\<close>

record 'c podForwarder =
  network :: string
  addr :: string
  podName :: string
  namespace :: string
  initChan :: chan
  viaErr :: "error option"
  viaAddr :: string
  ephemeralPortFinder :: "unit \<Rightarrow> error + string"
  portForwarderFactory :: PortForwarderFactory
  dialerFunc :: "'c dialerFunc"

text \<open>
  What the package takes from outside: \<^verbatim>\<open>net.Listen\<close> (a listener has the address it is
  bound to and the result of closing it), the session factory built on client-go
  (\<^verbatim>\<open>newKubectlPortForwarder\<close> only wires the cluster configuration into
  \<^verbatim>\<open>portforward.New\<close>), and \<^verbatim>\<open>net.Dialer.DialContext\<close>.
\<close>

record Listener =
  Addr :: string
  Close :: "error option"

record 'c platform =
  Listen :: "string \<Rightarrow> string \<Rightarrow> error + Listener"
  newKubectlPortForwarder :: PortForwarderFactory
  netDialContext :: "'c dialerFunc"

text \<open>
  \<open>defaultEphemeralPortFinder\<close>: listen on \<^verbatim>\<open>127.0.0.1:0\<close>, read the bound address, close
  the listener, and return the port of that address.
\<close>

definition defaultEphemeralPortFinder ::
  "(string \<Rightarrow> string \<Rightarrow> error + Listener) \<Rightarrow> unit \<Rightarrow> error + string" where
  "defaultEphemeralPortFinder listen = (\<lambda>_.
     case listen ''tcp'' ''127.0.0.1:0'' of
       Inl err \<Rightarrow> Inl err
     | Inr listener \<Rightarrow>
         (let a = Addr listener in
          case Close listener of
            Some err \<Rightarrow> Inl err
          | None \<Rightarrow>
              (case SplitHostPort a of
                 Inl err \<Rightarrow> Inl err
               | Inr (_, localPort) \<Rightarrow> Inr localPort)))"

definition defaultPortForwarderFactory :: "'c platform \<Rightarrow> PortForwarderFactory" where
  "defaultPortForwarderFactory p = newKubectlPortForwarder p"

definition defaultDialerFunc :: "'c platform \<Rightarrow> 'c dialerFunc" where
  "defaultDialerFunc p = (\<lambda>c net address. netDialContext p c net address)"

text \<open>\<open>NewPodForwarder\<close>: no forwarder when the address does not parse.\<close>

definition NewPodForwarder :: "'c platform \<Rightarrow> string \<Rightarrow> string \<Rightarrow> error + 'c podForwarder" where
  "NewPodForwarder p net address =
     (case parsePodAddr address of
        Inl err \<Rightarrow> Inl err
      | Inr (name, ns) \<Rightarrow>
          Inr \<lparr>network = net, addr = address,
               podName = name, namespace = ns,
               initChan = Open, viaErr = None, viaAddr = [],
               ephemeralPortFinder = defaultEphemeralPortFinder (Listen p),
               portForwarderFactory = defaultPortForwarderFactory p,
               dialerFunc = defaultDialerFunc p\<rparr>)"

text \<open>
  \<open>DialContext\<close> on a forwarder whose fields do not change during the call, with a context
  whose state does not change either. \<open>None\<close>: the \<^verbatim>\<open>select\<close> blocks, neither \<open>initChan\<close>
  nor \<^verbatim>\<open>ctx.Done()\<close> being closed. Otherwise the context's error comes first, then
  \<open>viaErr\<close>, then the call of \<open>dialerFunc\<close> on \<open>viaAddr\<close>.
\<close>

definition DialContext :: "'c podForwarder \<Rightarrow> context \<Rightarrow> (error + 'c) option" where
  "DialContext f c =
     (if initChan f = Open \<and> ctxErr c = None then None
      else (case ctxErr c of
              Some err \<Rightarrow> Some (Inl err)
            | None \<Rightarrow>
                (case viaErr f of
                   Some err \<Rightarrow> Some (Inl err)
                 | None \<Rightarrow> Some (dialerFunc f c (network f) (viaAddr f)))))"

section \<open>The running system\<close>

text \<open>
  \<open>Run\<close>, the goroutine it starts and the callers of \<open>DialContext\<close> run concurrently, so
  they are threads of one system that take turns, one atomic step at a time. A thread's
  state is the place in its code where its next step starts, with the local variables
  that are live there. Each read and each write of a field of the forwarder is one step
  or part of one, and takes effect at once for every thread.

  The steps of \<open>Run\<close>, by the line where they start: \<^verbatim>\<open>net.SplitHostPort\<close> (184), the port
  finder (190), the factory (196), the \<^verbatim>\<open>go\<close> statement (207), \<^verbatim>\<open>ForwardPorts\<close> (222,
  where \<open>Run\<close> blocks until the session ends), the assignment of \<open>viaErr\<close> (223), and the
  deferred calls in the order Go runs them: \<^verbatim>\<open>runCtxCancel()\<close>, then
  \<^verbatim>\<open>initCloser.Do(close(f.initChan))\<close>. Every \<^verbatim>\<open>return\<close> goes through both deferred calls;
  \<open>RunCtxCancel\<close> and \<open>RunInitCloser\<close> hold the value being returned.
\<close>

datatype run_pc =
    RunSplitHostPort
  | RunEphemeralPortFinder string
  | RunNewPortForwarder string string
  | RunGo string PortForwarder
  | RunForwardPorts string PortForwarder
  | RunSetViaErr "error option"
  | RunCtxCancel "error option"
  | RunInitCloser "error option"
  | RunReturned "error option"

text \<open>
  The goroutine of lines 207 to 220: the \<^verbatim>\<open>select\<close> on \<^verbatim>\<open>runCtx.Done()\<close> and \<open>readyChan\<close>,
  and in the second case the assignment of \<open>viaAddr\<close> and the deferred
  \<^verbatim>\<open>initCloser.Do(close(f.initChan))\<close>. The local port is the variable it captures.
\<close>

datatype watch_pc =
    WatchNotStarted
  | WatchSelect string
  | WatchSetViaAddr string
  | WatchInitCloser
  | WatchReturned

text \<open>
  A call of \<open>DialContext\<close> in progress: the \<^verbatim>\<open>select\<close> (146), the test of \<^verbatim>\<open>ctx.Err()\<close> (152),
  the test of \<open>viaErr\<close> (157), the call of \<open>dialerFunc\<close> (162), and the result once it has
  returned. Its context can be cancelled while it runs.
\<close>

datatype 'c dial_pc =
    DialSelect
  | DialCtxErr
  | DialViaErr
  | DialDialerFunc
  | DialReturned "error + 'c"

record 'c dialCall =
  dctx :: "context"
  dpc :: "'c dial_pc"

text \<open>
  The whole system: the forwarder, the context given to \<open>Run\<close>, whether \<^verbatim>\<open>runCtxCancel\<close>
  has been called, the \<open>readyChan\<close> the session closes when it is ready, whether the
  \<^verbatim>\<open>sync.Once\<close> \<open>initCloser\<close> has run its function, whether the program has panicked, and
  the threads.
\<close>

record 'c system =
  fwd :: "'c podForwarder"
  ctx :: "context"
  runCtxCancelled :: bool
  readyChan :: chan
  initCloser :: bool
  panicked :: bool
  run :: run_pc
  watch :: watch_pc
  dials :: "'c dialCall list"

definition initial :: "'c podForwarder \<Rightarrow> context \<Rightarrow> 'c system" where
  "initial f c =
     \<lparr>fwd = f, ctx = c, runCtxCancelled = False, readyChan = Open, initCloser = False,
      panicked = False, run = RunSplitHostPort, watch = WatchNotStarted, dials = []\<rparr>"

text \<open>\<^verbatim>\<open>close(f.initChan)\<close>: closing a closed channel panics.\<close>

definition close_initChan :: "'c system \<Rightarrow> 'c system" where
  "close_initChan s =
     (case initChan (fwd s) of
        Closed \<Rightarrow> s\<lparr>panicked := True\<rparr>
      | Open \<Rightarrow> s\<lparr>fwd := (fwd s)\<lparr>initChan := Closed\<rparr>\<rparr>)"

text \<open>\<^verbatim>\<open>initCloser.Do(func() { close(f.initChan) })\<close>: \<^verbatim>\<open>sync.Once\<close> runs the function on the
  first call only, and its calls exclude one another, so one call is one step.\<close>

definition initCloser_Do :: "'c system \<Rightarrow> 'c system" where
  "initCloser_Do s = (if initCloser s then s else (close_initChan s)\<lparr>initCloser := True\<rparr>)"

text \<open>\<^verbatim>\<open>runCtx\<close> is derived from \<open>ctx\<close> by \<^verbatim>\<open>context.WithCancel\<close>: it is done when \<open>ctx\<close> is
  done or \<^verbatim>\<open>runCtxCancel\<close> has been called.\<close>

definition runCtxDone :: "'c system \<Rightarrow> bool" where
  "runCtxDone s = (runCtxCancelled s \<or> ctxErr (ctx s) \<noteq> None)"

definition run_step :: "'c system \<Rightarrow> 'c system option" where
  "run_step s =
     (let f = fwd s in
      case run s of
        RunSplitHostPort \<Rightarrow>
          (case SplitHostPort (addr f) of
             Inl err \<Rightarrow> Some (s\<lparr>run := RunCtxCancel (Some err)\<rparr>)
           | Inr (_, port) \<Rightarrow> Some (s\<lparr>run := RunEphemeralPortFinder port\<rparr>))
      | RunEphemeralPortFinder port \<Rightarrow>
          (case ephemeralPortFinder f () of
             Inl err \<Rightarrow> Some (s\<lparr>run := RunCtxCancel (Some err)\<rparr>)
           | Inr localPort \<Rightarrow> Some (s\<lparr>run := RunNewPortForwarder port localPort\<rparr>))
      | RunNewPortForwarder port localPort \<Rightarrow>
          (case portForwarderFactory f (namespace f) (podName f) [localPort @ '':'' @ port] of
             Inl err \<Rightarrow> Some (s\<lparr>run := RunCtxCancel (Some err)\<rparr>)
           | Inr pf \<Rightarrow> Some (s\<lparr>run := RunGo localPort pf\<rparr>))
      | RunGo localPort pf \<Rightarrow>
          Some (s\<lparr>watch := WatchSelect localPort, run := RunForwardPorts localPort pf\<rparr>)
      | RunForwardPorts localPort pf \<Rightarrow> None
      | RunSetViaErr err \<Rightarrow>
          Some (s\<lparr>fwd := f\<lparr>viaErr := Some (ErrorString ''not currently forwarding'')\<rparr>,
                  run := RunCtxCancel err\<rparr>)
      | RunCtxCancel err \<Rightarrow> Some (s\<lparr>runCtxCancelled := True, run := RunInitCloser err\<rparr>)
      | RunInitCloser err \<Rightarrow> Some ((initCloser_Do s)\<lparr>run := RunReturned err\<rparr>)
      | RunReturned err \<Rightarrow> None)"

text \<open>The session ends: the call of \<^verbatim>\<open>ForwardPorts\<close> that \<open>Run\<close> is blocked in returns.\<close>

definition forwardPorts_return :: "'c system \<Rightarrow> 'c system option" where
  "forwardPorts_return s =
     (case run s of
        RunForwardPorts localPort pf \<Rightarrow> Some (s\<lparr>run := RunSetViaErr (ForwardPorts pf)\<rparr>)
      | _ \<Rightarrow> None)"

text \<open>The two cases of the goroutine's \<^verbatim>\<open>select\<close>, each possible when its channel is
  closed (Go chooses among the ready cases), and the steps after the second.\<close>

definition watch_ctxDone :: "'c system \<Rightarrow> 'c system option" where
  "watch_ctxDone s =
     (case watch s of
        WatchSelect localPort \<Rightarrow> if runCtxDone s then Some (s\<lparr>watch := WatchReturned\<rparr>) else None
      | _ \<Rightarrow> None)"

definition watch_ready :: "'c system \<Rightarrow> 'c system option" where
  "watch_ready s =
     (case watch s of
        WatchSelect localPort \<Rightarrow>
          if readyChan s = Closed then Some (s\<lparr>watch := WatchSetViaAddr localPort\<rparr>) else None
      | _ \<Rightarrow> None)"

definition watch_step :: "'c system \<Rightarrow> 'c system option" where
  "watch_step s =
     (case watch s of
        WatchSetViaAddr localPort \<Rightarrow>
          Some (s\<lparr>fwd := (fwd s)\<lparr>viaAddr := ''127.0.0.1:'' @ localPort\<rparr>, watch := WatchInitCloser\<rparr>)
      | WatchInitCloser \<Rightarrow> Some ((initCloser_Do s)\<lparr>watch := WatchReturned\<rparr>)
      | _ \<Rightarrow> None)"

text \<open>One step of a call of \<open>DialContext\<close>, reading the forwarder as it is now.\<close>

definition dial_step :: "'c podForwarder \<Rightarrow> 'c dialCall \<Rightarrow> 'c dialCall option" where
  "dial_step f d =
     (case dpc d of
        DialSelect \<Rightarrow>
          if initChan f = Open \<and> ctxErr (dctx d) = None then None
          else Some (d\<lparr>dpc := DialCtxErr\<rparr>)
      | DialCtxErr \<Rightarrow>
          (case ctxErr (dctx d) of
             Some err \<Rightarrow> Some (d\<lparr>dpc := DialReturned (Inl err)\<rparr>)
           | None \<Rightarrow> Some (d\<lparr>dpc := DialViaErr\<rparr>))
      | DialViaErr \<Rightarrow>
          (case viaErr f of
             Some err \<Rightarrow> Some (d\<lparr>dpc := DialReturned (Inl err)\<rparr>)
           | None \<Rightarrow> Some (d\<lparr>dpc := DialDialerFunc\<rparr>))
      | DialDialerFunc \<Rightarrow>
          Some (d\<lparr>dpc := DialReturned (dialerFunc f (dctx d) (network f) (viaAddr f))\<rparr>)
      | DialReturned r \<Rightarrow> None)"

text \<open>
  What can happen next. \<open>EvRun\<close>, \<open>EvWatch\<close> and \<open>EvDial i\<close> are steps of the threads;
  \<open>EvWatchCtxDone\<close> and \<open>EvWatchReady\<close> are the two cases of the goroutine's \<^verbatim>\<open>select\<close>;
  \<open>EvForwardPortsReturn\<close>, \<open>EvReady\<close> (the session closes \<open>readyChan\<close>, once), \<open>EvCancel\<close>
  (the context of \<open>Run\<close> is cancelled), \<open>EvDialContext\<close> (a caller calls \<open>DialContext\<close>)
  and \<open>EvDialCancel\<close> (a caller's context is cancelled) are what the rest of the program
  does. A step that cannot be taken now is \<open>None\<close>; nothing runs after a panic.
\<close>

datatype event =
    EvRun
  | EvForwardPortsReturn
  | EvWatchCtxDone
  | EvWatchReady
  | EvWatch
  | EvReady
  | EvCancel error
  | EvDialContext "context"
  | EvDialCancel nat error
  | EvDial nat

fun step_event :: "event \<Rightarrow> 'c system \<Rightarrow> 'c system option" where
  "step_event EvRun s = run_step s"
| "step_event EvForwardPortsReturn s = forwardPorts_return s"
| "step_event EvWatchCtxDone s = watch_ctxDone s"
| "step_event EvWatchReady s = watch_ready s"
| "step_event EvWatch s = watch_step s"
| "step_event EvReady s =
     (case readyChan s of Open \<Rightarrow> Some (s\<lparr>readyChan := Closed\<rparr>) | Closed \<Rightarrow> None)"
| "step_event (EvCancel err) s =
     (case ctxErr (ctx s) of
        None \<Rightarrow> Some (s\<lparr>ctx := (ctx s)\<lparr>ctxErr := Some err\<rparr>\<rparr>)
      | Some _ \<Rightarrow> None)"
| "step_event (EvDialContext c) s = Some (s\<lparr>dials := dials s @ [\<lparr>dctx = c, dpc = DialSelect\<rparr>]\<rparr>)"
| "step_event (EvDialCancel i err) s =
     (if i < length (dials s)
      then (case ctxErr (dctx (dials s ! i)) of
              None \<Rightarrow>
                Some (s\<lparr>dials := (dials s)[i := (dials s ! i)\<lparr>dctx := (dctx (dials s ! i))\<lparr>ctxErr := Some err\<rparr>\<rparr>]\<rparr>)
            | Some _ \<Rightarrow> None)
      else None)"
| "step_event (EvDial i) s =
     (if i < length (dials s)
      then (case dial_step (fwd s) (dials s ! i) of
              None \<Rightarrow> None
            | Some d \<Rightarrow> Some (s\<lparr>dials := (dials s)[i := d]\<rparr>))
      else None)"

definition step :: "event \<Rightarrow> 'c system \<Rightarrow> 'c system option" where
  "step e s = (if panicked s then None else step_event e s)"

text \<open>A run of the system: the events in order; \<open>None\<close> when one of them cannot happen.\<close>

fun exec :: "event list \<Rightarrow> 'c system \<Rightarrow> 'c system option" where
  "exec [] s = Some s"
| "exec (e # es) s = (case step e s of None \<Rightarrow> None | Some s' \<Rightarrow> exec es s')"

section \<open>Fakes\<close>

text \<open>
  The injected functions exist so that tests can replace them. These are such
  replacements: a listener that binds only \<^verbatim>\<open>127.0.0.1:0\<close> and gets port 9000, a session
  factory whose session ends without error, and a dialer that connects to whatever it is
  asked for and returns the network and the address it was given.
\<close>

definition fakeListen :: "string \<Rightarrow> string \<Rightarrow> error + Listener" where
  "fakeListen net address =
     (if address = ''127.0.0.1:0''
      then Inr \<lparr>Addr = ''127.0.0.1:9000'', Close = None\<rparr>
      else Inl (ErrorString ''listen: address not available''))"

text \<open>A listener for wildcard addresses only.\<close>

definition wildcardListen :: "string \<Rightarrow> string \<Rightarrow> error + Listener" where
  "wildcardListen net address =
     (if address = '':0'' \<or> address = ''0.0.0.0:0'' \<or> address = ''[::]:0''
      then Inr \<lparr>Addr = ''[::]:9000'', Close = None\<rparr>
      else Inl (ErrorString ''listen: address not available''))"

definition fakeFactory :: PortForwarderFactory where
  "fakeFactory ns pod ports = Inr \<lparr>ForwardPorts = None\<rparr>"

definition fakeDialer :: "(string \<times> string) dialerFunc" where
  "fakeDialer c net address = Inr (net, address)"

definition fakePlatform :: "(string \<times> string) platform" where
  "fakePlatform = \<lparr>Listen = fakeListen, newKubectlPortForwarder = fakeFactory,
                    netDialContext = fakeDialer\<rparr>"

definition fakeForwarder :: "(string \<times> string) podForwarder" where
  "fakeForwarder =
     \<lparr>network = ''tcp'', addr = ''podA.ns1.pod.cluster.local:9200'',
      podName = ''podA'', namespace = ''ns1'',
      initChan = Open, viaErr = None, viaAddr = [],
      ephemeralPortFinder = defaultEphemeralPortFinder fakeListen,
      portForwarderFactory = defaultPortForwarderFactory fakePlatform,
      dialerFunc = defaultDialerFunc fakePlatform\<rparr>"

text \<open>A port finder and a factory that fail, the context \<^verbatim>\<open>context.Background()\<close> that
  \<open>Run\<close> is given and the context of a caller of \<open>DialContext\<close>, neither of them
  cancelled.\<close>

definition failingPortFinder :: "unit \<Rightarrow> error + string" where
  "failingPortFinder = (\<lambda>_. Inl (ErrorString ''no free port''))"

definition failingFactory :: PortForwarderFactory where
  "failingFactory ns pod ports = Inl (ErrorString ''session creation failed'')"

definition background :: "context" where
  "background = \<lparr>ctxId = 0, ctxErr = None\<rparr>"

definition callerCtx :: "context" where
  "callerCtx = \<lparr>ctxId = 1, ctxErr = None\<rparr>"

text \<open>A caller's context that has been cancelled.\<close>

definition cancelledCtx :: "context" where
  "cancelledCtx = \<lparr>ctxId = 2, ctxErr = Some Canceled\<rparr>"

section \<open>Observations and invariants\<close>

text \<open>A forwarder as \<open>NewPodForwarder\<close> leaves it, whatever functions are injected
  afterwards: the channel open, no error, no address.\<close>

definition fresh :: "'c podForwarder \<Rightarrow> bool" where
  "fresh f = (initChan f = Open \<and> viaErr f = None \<and> viaAddr f = [])"

text \<open>What a test looks at after a run: where \<open>Run\<close> and its goroutine are, the ready
  channel, the gate, and the calls of \<open>DialContext\<close> with their results.\<close>

definition observe ::
  "'c system option \<Rightarrow>
   (run_pc \<times> watch_pc \<times> chan \<times> chan \<times> error option \<times> string \<times> 'c dial_pc list) option" where
  "observe r =
     map_option
       (\<lambda>s. (run s, watch s, readyChan s, initChan (fwd s), viaErr (fwd s), viaAddr (fwd s),
              map dpc (dials s))) r"

text \<open>The number of steps of a run in which \<open>initChan\<close> goes from open to closed.\<close>

fun closings :: "event list \<Rightarrow> 'c system \<Rightarrow> nat" where
  "closings [] s = 0"
| "closings (e # es) s =
     (case step e s of
        None \<Rightarrow> 0
      | Some s' \<Rightarrow>
          (if initChan (fwd s) = Open \<and> initChan (fwd s') = Closed then 1 else 0)
          + closings es s')"

text \<open>The events that belong to calls of \<open>DialContext\<close>.\<close>

fun dialEvent :: "event \<Rightarrow> bool" where
  "dialEvent (EvDialContext c) = True"
| "dialEvent (EvDialCancel i err) = True"
| "dialEvent (EvDial i) = True"
| "dialEvent e = False"

text \<open>The \<^verbatim>\<open>sync.Once\<close> has run exactly when the channel is closed, and nothing has
  panicked.\<close>

definition once_inv :: "'c system \<Rightarrow> bool" where
  "once_inv s = (\<not> panicked s \<and> initCloser s = (initChan (fwd s) = Closed))"

text \<open>What holds at each place of \<open>Run\<close>: before the goroutine exists nothing has been
  touched; while \<open>Run\<close> is blocked in \<^verbatim>\<open>ForwardPorts\<close> the channel is closed only if the
  goroutine has stored the address; after a \<^verbatim>\<open>return\<close> the error is set if the session was
  ever started.\<close>

definition pristine :: "'c system \<Rightarrow> bool" where
  "pristine s =
     (watch s = WatchNotStarted \<and> initChan (fwd s) = Open \<and> viaErr (fwd s) = None
      \<and> viaAddr (fwd s) = [] \<and> \<not> runCtxCancelled s)"

definition forwarding :: "string \<Rightarrow> 'c system \<Rightarrow> bool" where
  "forwarding lp s =
     (case watch s of
        WatchNotStarted \<Rightarrow> False
      | WatchSelect lp' \<Rightarrow> lp' = lp \<and> initChan (fwd s) = Open
      | WatchSetViaAddr lp' \<Rightarrow> lp' = lp \<and> initChan (fwd s) = Open \<and> readyChan s = Closed
      | WatchInitCloser \<Rightarrow>
          initChan (fwd s) = Open \<and> viaAddr (fwd s) = ''127.0.0.1:'' @ lp \<and> readyChan s = Closed
      | WatchReturned \<Rightarrow>
          initChan (fwd s) = Open \<or> viaAddr (fwd s) = ''127.0.0.1:'' @ lp \<and> readyChan s = Closed)"

definition ended :: "'c system \<Rightarrow> bool" where
  "ended s =
     (case watch s of
        WatchNotStarted \<Rightarrow> viaErr (fwd s) = None \<and> viaAddr (fwd s) = []
      | _ \<Rightarrow> viaErr (fwd s) = Some (ErrorString ''not currently forwarding''))"

definition run_inv :: "'c system \<Rightarrow> bool" where
  "run_inv s =
     (case run s of
        RunSplitHostPort \<Rightarrow> pristine s
      | RunEphemeralPortFinder port \<Rightarrow> pristine s
      | RunNewPortForwarder port lp \<Rightarrow> pristine s \<and> ephemeralPortFinder (fwd s) () = Inr lp
      | RunGo lp pf \<Rightarrow> pristine s \<and> ephemeralPortFinder (fwd s) () = Inr lp
      | RunForwardPorts lp pf \<Rightarrow>
          forwarding lp s \<and> ephemeralPortFinder (fwd s) () = Inr lp \<and> viaErr (fwd s) = None
          \<and> \<not> runCtxCancelled s
      | RunSetViaErr e \<Rightarrow> viaErr (fwd s) = None \<and> watch s \<noteq> WatchNotStarted
      | RunCtxCancel e \<Rightarrow> ended s
      | RunInitCloser e \<Rightarrow> ended s
      | RunReturned e \<Rightarrow> ended s \<and> initChan (fwd s) = Closed)"

text \<open>A call of \<open>DialContext\<close> running alone, for at most \<open>n\<close> steps, on a forwarder
  that nothing else changes.\<close>

fun dial_steps :: "nat \<Rightarrow> 'c podForwarder \<Rightarrow> 'c dialCall \<Rightarrow> 'c dialCall" where
  "dial_steps 0 f d = d"
| "dial_steps (Suc n) f d = (case dial_step f d of None \<Rightarrow> d | Some d' \<Rightarrow> dial_steps n f d')"

text \<open>What holds of a call of \<open>DialContext\<close> made once \<open>viaErr\<close> is set: it never
  reaches the dialer, and what it returns is the fixed error or the error of its own
  context.\<close>

definition late_call_ok :: "'c dialCall \<Rightarrow> bool" where
  "late_call_ok d =
     (case dpc d of
        DialSelect \<Rightarrow> True
      | DialCtxErr \<Rightarrow> True
      | DialViaErr \<Rightarrow> True
      | DialDialerFunc \<Rightarrow> False
      | DialReturned r \<Rightarrow>
          r = Inl (ErrorString ''not currently forwarding'')
          \<or> (case ctxErr (dctx d) of None \<Rightarrow> False | Some e \<Rightarrow> r = Inl e))"

definition late_call :: "nat \<Rightarrow> 'c system \<Rightarrow> bool" where
  "late_call i s =
     (viaErr (fwd s) = Some (ErrorString ''not currently forwarding'')
      \<and> i < length (dials s) \<and> late_call_ok (dials s ! i))"

text \<open>Once \<^verbatim>\<open>ForwardPorts\<close> has returned, the assignment of \<open>viaErr\<close> is the next step of
  \<open>Run\<close> or has been made.\<close>

definition viaErr_due :: "'c system \<Rightarrow> bool" where
  "viaErr_due s = (case run s of RunSetViaErr e \<Rightarrow> True
     | _ \<Rightarrow> viaErr (fwd s) = Some (ErrorString ''not currently forwarding''))"

text \<open>What holds of every call of \<open>DialContext\<close> whose context is live: it is still at its
  \<^verbatim>\<open>select\<close> or the channel is closed, and what it has returned is the fixed error or a
  result of the dialer.\<close>

definition call_inv :: "'c system \<Rightarrow> 'c dialCall \<Rightarrow> bool" where
  "call_inv s d =
     (ctxErr (dctx d) = None \<longrightarrow>
        (dpc d = DialSelect \<or> initChan (fwd s) = Closed)
        \<and> (\<forall>r. dpc d = DialReturned r \<longrightarrow>
              r = Inl (ErrorString ''not currently forwarding'')
              \<or> (\<exists>a. r = dialerFunc (fwd s) (dctx d) (network (fwd s)) a)))"

definition calls_inv :: "'c system \<Rightarrow> bool" where
  "calls_inv s = (\<forall>i < length (dials s). call_inv s (dials s ! i))"

text \<open>While \<open>Run\<close> is blocked in \<^verbatim>\<open>ForwardPorts\<close> with the local port \<open>lp\<close>, what a call
  with a live context has returned is the dialer's result for \<open>127.0.0.1:lp\<close>.\<close>

definition forwarding_calls :: "'c system \<Rightarrow> bool" where
  "forwarding_calls s =
     (case run s of
        RunForwardPorts lp pf \<Rightarrow>
          (\<forall>i < length (dials s). \<forall>r.
             dpc (dials s ! i) = DialReturned r \<and> ctxErr (dctx (dials s ! i)) = None \<longrightarrow>
             r = dialerFunc (fwd s) (dctx (dials s ! i)) (network (fwd s)) (''127.0.0.1:'' @ lp))
      | _ \<Rightarrow> True)"

section \<open>Splitting at a one-byte separator\<close>

declare genSplit.simps(2) [simp del]

lemma Index_byte_absent: "d \<notin> set s \<Longrightarrow> Index s [d] = None"
  by (induction s) auto

lemma Index_byte_first: "d \<notin> set a \<Longrightarrow> Index (a @ d # r) [d] = Some (length a)"
  by (induction a) auto

lemma genSplit_absent: "d \<notin> set s \<Longrightarrow> genSplit s [d] k = [s]"
  by (cases k) (simp_all add: Index_byte_absent genSplit.simps(2))

lemma genSplit_cut:
  "d \<notin> set a \<Longrightarrow> genSplit (a @ d # r) [d] (Suc k) = a # genSplit r [d] k"
  by (simp add: Index_byte_first genSplit.simps(2))

lemma SplitN3_none: "d \<notin> set s \<Longrightarrow> SplitN s [d] 3 = [s]"
  by (simp add: SplitN_def genSplit_absent)

lemma SplitN3_one:
  assumes "d \<notin> set a" "d \<notin> set r"
  shows "SplitN (a @ d # r) [d] 3 = [a, r]"
proof -
  have "min 3 (length (a @ d # r) + 1) - 1 = Suc (min 1 (length a + length r))"
    by simp
  then show ?thesis
    using assms by (simp add: SplitN_def genSplit_cut genSplit_absent)
qed

lemma SplitN3_two:
  assumes "d \<notin> set a" "d \<notin> set b"
  shows "SplitN (a @ d # b @ d # r) [d] 3 = [a, b, r]"
proof -
  have "min 3 (length (a @ d # b @ d # r) + 1) - 1 = Suc (Suc 0)"
    by simp
  then show ?thesis
    using assms by (simp add: SplitN_def genSplit_cut)
qed

text \<open>A string has no separator, exactly one, or a first and a second one.\<close>

lemma separator_cases:
  fixes s :: "'a list"
  obtains (none) "d \<notin> set s"
  | (one) a r where "s = a @ d # r" "d \<notin> set a" "d \<notin> set r"
  | (two) a b r where "s = a @ d # b @ d # r" "d \<notin> set a" "d \<notin> set b"
proof (cases "d \<in> set s")
  case False
  then show ?thesis using none by simp
next
  case True
  then obtain a t where s: "s = a @ d # t" "d \<notin> set a"
    by (auto dest: split_list_first)
  show ?thesis
  proof (cases "d \<in> set t")
    case False
    then show ?thesis using one s by simp
  next
    case True
    then obtain b r where "t = b @ d # r" "d \<notin> set b"
      by (auto dest: split_list_first)
    then show ?thesis using two s by simp
  qed
qed

lemma filter_absent: "d \<notin> set s \<Longrightarrow> filter (\<lambda>c. c = d) s = []"
  by (induction s) auto

lemma parsePodAddr_fails_iff:
  "(parsePodAddr a = Inl (ErrorString (''unsupported pod address format: '' @ a)))
     = (length (filter (\<lambda>c. c = CHR ''.'') a) < 2)"
proof (cases a rule: separator_cases [where d = "CHR ''.''"])
  case none
  then show ?thesis by (simp add: parsePodAddr_def SplitN3_none filter_absent)
next
  case (one x r)
  then show ?thesis by (simp add: parsePodAddr_def SplitN3_one filter_absent)
next
  case (two x y r)
  then show ?thesis by (simp add: parsePodAddr_def SplitN3_two filter_absent)
qed

lemma parsePodAddr_result:
  "parsePodAddr a = Inl (ErrorString (''unsupported pod address format: '' @ a))
     \<or> (\<exists>name ns. parsePodAddr a = Inr (name, ns))"
  by (simp add: parsePodAddr_def Let_def)

section \<open>Invariants of the running system\<close>

subsection \<open>The once-guard\<close>

text \<open>Every step keeps \<open>once_inv\<close>: only \<open>initCloser_Do\<close> touches the channel and the
  guard, and it closes the channel only when the guard has not run.\<close>

lemma once_inv_run_step: "run_step s = Some s' \<Longrightarrow> once_inv s \<Longrightarrow> once_inv s'"
  unfolding run_step_def Let_def
  by (cases "run s") (auto simp: once_inv_def initCloser_Do_def close_initChan_def split: sum.splits chan.splits)

lemma once_inv_watch_step: "watch_step s = Some s' \<Longrightarrow> once_inv s \<Longrightarrow> once_inv s'"
  unfolding watch_step_def
  by (cases "watch s") (auto simp: once_inv_def initCloser_Do_def close_initChan_def split: chan.splits)

lemma once_inv_step_event: "step_event e s = Some s' \<Longrightarrow> once_inv s \<Longrightarrow> once_inv s'"
proof (cases e)
  case EvRun
  then show "step_event e s = Some s' \<Longrightarrow> once_inv s \<Longrightarrow> once_inv s'"
    by (simp add: once_inv_run_step)
next
  case EvForwardPortsReturn
  then show "step_event e s = Some s' \<Longrightarrow> once_inv s \<Longrightarrow> once_inv s'"
    by (cases "run s") (auto simp: forwardPorts_return_def once_inv_def)
next
  case EvWatchCtxDone
  then show "step_event e s = Some s' \<Longrightarrow> once_inv s \<Longrightarrow> once_inv s'"
    by (cases "watch s") (auto simp: watch_ctxDone_def once_inv_def split: if_splits)
next
  case EvWatchReady
  then show "step_event e s = Some s' \<Longrightarrow> once_inv s \<Longrightarrow> once_inv s'"
    by (cases "watch s") (auto simp: watch_ready_def once_inv_def split: if_splits)
next
  case EvWatch
  then show "step_event e s = Some s' \<Longrightarrow> once_inv s \<Longrightarrow> once_inv s'"
    by (simp add: once_inv_watch_step)
next
  case EvReady
  then show "step_event e s = Some s' \<Longrightarrow> once_inv s \<Longrightarrow> once_inv s'"
    by (auto simp: once_inv_def split: chan.splits)
next
  case (EvCancel x)
  then show "step_event e s = Some s' \<Longrightarrow> once_inv s \<Longrightarrow> once_inv s'"
    by (auto simp: once_inv_def split: option.splits)
next
  case (EvDialContext x)
  then show "step_event e s = Some s' \<Longrightarrow> once_inv s \<Longrightarrow> once_inv s'"
    by (auto simp: once_inv_def)
next
  case (EvDialCancel i x)
  then show "step_event e s = Some s' \<Longrightarrow> once_inv s \<Longrightarrow> once_inv s'"
    by (auto simp: once_inv_def split: option.splits if_splits)
next
  case (EvDial i)
  then show "step_event e s = Some s' \<Longrightarrow> once_inv s \<Longrightarrow> once_inv s'"
    by (auto simp: once_inv_def split: option.splits if_splits)
qed

subsection \<open>The places of \<open>Run\<close>\<close>

lemma run_inv_run_step: "run_step s = Some s' \<Longrightarrow> once_inv s \<Longrightarrow> run_inv s \<Longrightarrow> run_inv s'"
  unfolding run_step_def Let_def
  apply (cases "run s")
  subgoal by (auto simp: run_inv_def pristine_def ended_def split: sum.splits)
  subgoal by (auto simp: run_inv_def pristine_def ended_def split: sum.splits)
  subgoal by (auto simp: run_inv_def pristine_def ended_def split: sum.splits)
  subgoal by (auto simp: run_inv_def pristine_def forwarding_def)
  subgoal by simp
  subgoal by (cases "watch s") (auto simp: run_inv_def ended_def)
  subgoal by (cases "watch s") (auto simp: run_inv_def ended_def)
  subgoal by (cases "watch s"; cases "initChan (fwd s)")
      (auto simp: run_inv_def ended_def once_inv_def initCloser_Do_def close_initChan_def)
  subgoal by simp
  done

lemma run_inv_forwardPorts_return:
  "forwardPorts_return s = Some s' \<Longrightarrow> run_inv s \<Longrightarrow> run_inv s'"
  unfolding forwardPorts_return_def
  by (cases "run s"; cases "watch s") (auto simp: run_inv_def forwarding_def)

lemma run_inv_watch_ctxDone: "watch_ctxDone s = Some s' \<Longrightarrow> run_inv s \<Longrightarrow> run_inv s'"
  unfolding watch_ctxDone_def
  by (cases "watch s"; cases "run s")
    (auto simp: run_inv_def pristine_def forwarding_def ended_def split: if_splits)

lemma run_inv_watch_ready: "watch_ready s = Some s' \<Longrightarrow> run_inv s \<Longrightarrow> run_inv s'"
  unfolding watch_ready_def
  by (cases "watch s"; cases "run s")
    (auto simp: run_inv_def pristine_def forwarding_def ended_def split: if_splits)

lemma run_inv_watch_step:
  "watch_step s = Some s' \<Longrightarrow> once_inv s \<Longrightarrow> run_inv s \<Longrightarrow> run_inv s'"
  unfolding watch_step_def
  by (cases "watch s"; cases "run s"; cases "initChan (fwd s)")
    (auto simp: run_inv_def pristine_def forwarding_def ended_def once_inv_def
       initCloser_Do_def close_initChan_def)

lemma run_inv_cong:
  assumes "run_inv s" and "run s' = run s" and "watch s' = watch s" and "fwd s' = fwd s"
    and "runCtxCancelled s' = runCtxCancelled s"
    and "readyChan s = Closed \<Longrightarrow> readyChan s' = Closed"
  shows "run_inv s'"
  using assms
  by (cases "run s"; cases "watch s") (auto simp: run_inv_def pristine_def forwarding_def ended_def)

lemma run_inv_step_event:
  "step_event e s = Some s' \<Longrightarrow> once_inv s \<Longrightarrow> run_inv s \<Longrightarrow> run_inv s'"
proof (cases e)
  case EvRun
  then show "step_event e s = Some s' \<Longrightarrow> once_inv s \<Longrightarrow> run_inv s \<Longrightarrow> run_inv s'"
    by (simp add: run_inv_run_step)
next
  case EvForwardPortsReturn
  then show "step_event e s = Some s' \<Longrightarrow> once_inv s \<Longrightarrow> run_inv s \<Longrightarrow> run_inv s'"
    by (simp add: run_inv_forwardPorts_return)
next
  case EvWatchCtxDone
  then show "step_event e s = Some s' \<Longrightarrow> once_inv s \<Longrightarrow> run_inv s \<Longrightarrow> run_inv s'"
    by (simp add: run_inv_watch_ctxDone)
next
  case EvWatchReady
  then show "step_event e s = Some s' \<Longrightarrow> once_inv s \<Longrightarrow> run_inv s \<Longrightarrow> run_inv s'"
    by (simp add: run_inv_watch_ready)
next
  case EvWatch
  then show "step_event e s = Some s' \<Longrightarrow> once_inv s \<Longrightarrow> run_inv s \<Longrightarrow> run_inv s'"
    by (simp add: run_inv_watch_step)
next
  case EvReady
  then show "step_event e s = Some s' \<Longrightarrow> once_inv s \<Longrightarrow> run_inv s \<Longrightarrow> run_inv s'"
    by (auto split: chan.splits elim!: run_inv_cong)
next
  case (EvCancel x)
  then show "step_event e s = Some s' \<Longrightarrow> once_inv s \<Longrightarrow> run_inv s \<Longrightarrow> run_inv s'"
    by (auto split: option.splits elim!: run_inv_cong)
next
  case (EvDialContext x)
  then show "step_event e s = Some s' \<Longrightarrow> once_inv s \<Longrightarrow> run_inv s \<Longrightarrow> run_inv s'"
    by (auto elim!: run_inv_cong)
next
  case (EvDialCancel i x)
  then show "step_event e s = Some s' \<Longrightarrow> once_inv s \<Longrightarrow> run_inv s \<Longrightarrow> run_inv s'"
    by (auto split: option.splits if_splits elim!: run_inv_cong)
next
  case (EvDial i)
  then show "step_event e s = Some s' \<Longrightarrow> once_inv s \<Longrightarrow> run_inv s \<Longrightarrow> run_inv s'"
    by (auto split: option.splits if_splits elim!: run_inv_cong)
qed

subsection \<open>Runs\<close>

text \<open>A property that every possible step keeps holds after every run.\<close>

lemma step_Some: "step e s = Some s' \<Longrightarrow> \<not> panicked s \<and> step_event e s = Some s'"
  by (simp add: step_def split: if_splits)

lemma exec_append:
  "exec (xs @ ys) s = (case exec xs s of None \<Rightarrow> None | Some s' \<Rightarrow> exec ys s')"
  by (induction xs arbitrary: s) (auto split: option.splits)

lemma exec_invariant:
  assumes "exec evs s = Some s'" and "P s"
    and "\<And>e s s'. P s \<Longrightarrow> step e s = Some s' \<Longrightarrow> P s'"
  shows "P s'"
  using assms(1,2)
proof (induction evs arbitrary: s)
  case Nil
  then show ?case by simp
next
  case (Cons e evs)
  then show ?case by (auto split: option.splits dest: assms(3))
qed

lemma invs_initial: "fresh f \<Longrightarrow> once_inv (initial f c) \<and> run_inv (initial f c)"
  by (simp add: fresh_def initial_def once_inv_def run_inv_def pristine_def)

lemma invs_exec:
  assumes "exec evs s = Some s'" and "once_inv s \<and> run_inv s"
  shows "once_inv s' \<and> run_inv s'"
  using assms
  by (rule exec_invariant) (auto dest!: step_Some intro: once_inv_step_event run_inv_step_event)

subsection \<open>What a step can change in the forwarder\<close>

text \<open>A step leaves the forwarder as it is, or sets \<open>viaErr\<close> to the fixed error, or sets
  \<open>viaAddr\<close> to a loopback address, or closes \<open>initChan\<close>; nothing else is ever written.\<close>

lemma run_step_fwd:
  "run_step s = Some s' \<Longrightarrow>
     fwd s' = fwd s \<or> fwd s' = (fwd s)\<lparr>viaErr := Some (ErrorString ''not currently forwarding'')\<rparr>
     \<or> fwd s' = (fwd s)\<lparr>initChan := Closed\<rparr>"
  unfolding run_step_def Let_def
  by (cases "run s"; cases "initChan (fwd s)")
    (auto simp: initCloser_Do_def close_initChan_def split: sum.splits)

lemma watch_step_fwd:
  "watch_step s = Some s' \<Longrightarrow>
     fwd s' = fwd s \<or> (\<exists>lp. fwd s' = (fwd s)\<lparr>viaAddr := ''127.0.0.1:'' @ lp\<rparr>)
     \<or> fwd s' = (fwd s)\<lparr>initChan := Closed\<rparr>"
  unfolding watch_step_def
  by (cases "watch s"; cases "initChan (fwd s)")
    (auto simp: initCloser_Do_def close_initChan_def)

lemma step_event_fwd:
  "step_event e s = Some s' \<Longrightarrow>
     fwd s' = fwd s \<or> fwd s' = (fwd s)\<lparr>viaErr := Some (ErrorString ''not currently forwarding'')\<rparr>
     \<or> (\<exists>lp. fwd s' = (fwd s)\<lparr>viaAddr := ''127.0.0.1:'' @ lp\<rparr>)
     \<or> fwd s' = (fwd s)\<lparr>initChan := Closed\<rparr>"
proof (cases e)
  case EvRun
  then show "step_event e s = Some s' \<Longrightarrow> ?thesis"
    using run_step_fwd [of s s'] by auto
next
  case EvForwardPortsReturn
  then show "step_event e s = Some s' \<Longrightarrow> ?thesis"
    by (cases "run s") (auto simp: forwardPorts_return_def)
next
  case EvWatchCtxDone
  then show "step_event e s = Some s' \<Longrightarrow> ?thesis"
    by (cases "watch s") (auto simp: watch_ctxDone_def split: if_splits)
next
  case EvWatchReady
  then show "step_event e s = Some s' \<Longrightarrow> ?thesis"
    by (cases "watch s") (auto simp: watch_ready_def split: if_splits)
next
  case EvWatch
  then show "step_event e s = Some s' \<Longrightarrow> ?thesis"
    using watch_step_fwd [of s s'] by auto
next
  case EvReady
  then show "step_event e s = Some s' \<Longrightarrow> ?thesis"
    by (auto split: chan.splits)
next
  case (EvCancel x)
  then show "step_event e s = Some s' \<Longrightarrow> ?thesis"
    by (auto split: option.splits)
next
  case (EvDialContext x)
  then show "step_event e s = Some s' \<Longrightarrow> ?thesis"
    by auto
next
  case (EvDialCancel i x)
  then show "step_event e s = Some s' \<Longrightarrow> ?thesis"
    by (auto split: option.splits if_splits)
next
  case (EvDial i)
  then show "step_event e s = Some s' \<Longrightarrow> ?thesis"
    by (auto split: option.splits if_splits)
qed

lemma step_closed: "step e s = Some s' \<Longrightarrow> initChan (fwd s) = Closed \<Longrightarrow> initChan (fwd s') = Closed"
  using step_event_fwd [of e s s'] by (auto dest!: step_Some)

lemma exec_closed:
  "exec evs s = Some s' \<Longrightarrow> initChan (fwd s) = Closed \<Longrightarrow> initChan (fwd s') = Closed"
  by (erule exec_invariant) (auto dest: step_closed)

lemma step_viaErr:
  "step e s = Some s' \<Longrightarrow> viaErr (fwd s) = Some (ErrorString ''not currently forwarding'')
     \<Longrightarrow> viaErr (fwd s') = Some (ErrorString ''not currently forwarding'')"
  using step_event_fwd [of e s s'] by (auto dest!: step_Some)

lemma step_frame:
  "step e s = Some s' \<Longrightarrow>
     network (fwd s') = network (fwd s) \<and> addr (fwd s') = addr (fwd s)
     \<and> podName (fwd s') = podName (fwd s) \<and> namespace (fwd s') = namespace (fwd s)
     \<and> ephemeralPortFinder (fwd s') = ephemeralPortFinder (fwd s)
     \<and> portForwarderFactory (fwd s') = portForwarderFactory (fwd s)
     \<and> dialerFunc (fwd s') = dialerFunc (fwd s)"
  using step_event_fwd [of e s s'] by (auto dest!: step_Some)

lemma exec_frame:
  "exec evs s = Some s' \<Longrightarrow>
     network (fwd s') = network (fwd s) \<and> addr (fwd s') = addr (fwd s)
     \<and> podName (fwd s') = podName (fwd s) \<and> namespace (fwd s') = namespace (fwd s)
     \<and> ephemeralPortFinder (fwd s') = ephemeralPortFinder (fwd s)
     \<and> portForwarderFactory (fwd s') = portForwarderFactory (fwd s)
     \<and> dialerFunc (fwd s') = dialerFunc (fwd s)"
proof (induction evs arbitrary: s)
  case Nil
  then show ?case by simp
next
  case (Cons e evs)
  then obtain s1 where s1: "step e s = Some s1" "exec evs s1 = Some s'"
    by (auto split: option.splits)
  from step_frame [OF s1(1)] Cons.IH [OF s1(2)] show ?case by simp
qed

lemma closings_exec:
  "exec evs s = Some s' \<Longrightarrow>
     closings evs s = (if initChan (fwd s) = Open \<and> initChan (fwd s') = Closed then 1 else 0)"
proof (induction evs arbitrary: s)
  case Nil
  then show ?case by simp
next
  case (Cons e evs)
  then obtain s1 where s1: "step e s = Some s1" "exec evs s1 = Some s'"
    by (auto split: option.splits)
  have c: "closings evs s1 = (if initChan (fwd s1) = Open \<and> initChan (fwd s') = Closed then 1 else 0)"
    using Cons.IH [OF s1(2)] .
  show ?case
  proof (cases "initChan (fwd s)")
    case Open
    then show ?thesis
      using s1 c exec_closed [OF s1(2)] by (cases "initChan (fwd s1)") auto
  next
    case Closed
    then show ?thesis
      using s1 c step_closed [OF s1(1)] by auto
  qed
qed

subsection \<open>Calls of \<open>DialContext\<close> and the rest of the system\<close>

text \<open>No step of \<open>Run\<close>, of its goroutine or of the environment reads the calls in
  progress, and a step of a call changes nothing but that call.\<close>

lemma run_step_dials:
  "run_step (s\<lparr>dials := d\<rparr>) = map_option (\<lambda>s'. s'\<lparr>dials := d\<rparr>) (run_step s)"
  unfolding run_step_def Let_def
  by (cases "run s") (auto simp: initCloser_Do_def close_initChan_def split: sum.splits chan.splits)

lemma watch_step_dials:
  "watch_step (s\<lparr>dials := d\<rparr>) = map_option (\<lambda>s'. s'\<lparr>dials := d\<rparr>) (watch_step s)"
  unfolding watch_step_def
  by (cases "watch s") (auto simp: initCloser_Do_def close_initChan_def split: chan.splits)

lemma step_dials:
  "\<not> dialEvent e \<Longrightarrow> step e (s\<lparr>dials := d\<rparr>) = map_option (\<lambda>s'. s'\<lparr>dials := d\<rparr>) (step e s)"
proof (cases e)
  case EvRun
  then show ?thesis by (simp add: step_def run_step_dials)
next
  case EvForwardPortsReturn
  then show ?thesis by (cases "run s") (simp_all add: step_def forwardPorts_return_def)
next
  case EvWatchCtxDone
  then show ?thesis by (cases "watch s") (simp_all add: step_def watch_ctxDone_def runCtxDone_def)
next
  case EvWatchReady
  then show ?thesis by (cases "watch s") (simp_all add: step_def watch_ready_def)
next
  case EvWatch
  then show ?thesis by (simp add: step_def watch_step_dials)
next
  case EvReady
  then show ?thesis by (cases "readyChan s") (simp_all add: step_def)
next
  case (EvCancel x)
  then show ?thesis by (cases "ctxErr (ctx s)") (simp_all add: step_def)
next
  case (EvDialContext x)
  then show "\<not> dialEvent e \<Longrightarrow> ?thesis" by simp
next
  case (EvDialCancel i x)
  then show "\<not> dialEvent e \<Longrightarrow> ?thesis" by simp
next
  case (EvDial i)
  then show "\<not> dialEvent e \<Longrightarrow> ?thesis" by simp
qed

lemma step_dial_only:
  "dialEvent e \<Longrightarrow> step e s = Some s' \<Longrightarrow> s' = s\<lparr>dials := dials s'\<rparr>"
  by (cases e) (auto simp: step_def split: if_splits option.splits)

lemma exec_without_dials:
  "exec evs s = Some s' \<Longrightarrow>
     exec (filter (\<lambda>e. \<not> dialEvent e) evs) (s\<lparr>dials := d\<rparr>) = Some (s'\<lparr>dials := d\<rparr>)"
proof (induction evs arbitrary: s)
  case Nil
  then show ?case by simp
next
  case (Cons e evs)
  then obtain s1 where s1: "step e s = Some s1" "exec evs s1 = Some s'"
    by (auto split: option.splits)
  show ?case
  proof (cases "dialEvent e")
    case True
    then have "s1\<lparr>dials := d\<rparr> = s\<lparr>dials := d\<rparr>"
      using step_dial_only [OF True s1(1)] by (metis system.update_convs(9) system.surjective)
    then show ?thesis
      using True Cons.IH [OF s1(2)] by simp
  next
    case False
    then show ?thesis
      using s1(1) Cons.IH [OF s1(2)] by (simp add: step_dials)
  qed
qed

subsection \<open>Calls made after the session has ended\<close>

lemma step_not_dial_dials:
  assumes "\<not> dialEvent e" and "step e s = Some s'"
  shows "dials s' = dials s"
proof -
  have "s' = s'\<lparr>dials := dials s\<rparr>"
    using step_dials [OF assms(1), where s = s and d = "dials s"] assms(2) by simp
  then have "dials s' = dials (s'\<lparr>dials := dials s\<rparr>)"
    by (rule arg_cong)
  also have "... = dials s"
    by simp
  finally show ?thesis .
qed

lemma late_dial_step:
  "dial_step f d = Some d' \<Longrightarrow> viaErr f = Some (ErrorString ''not currently forwarding'')
     \<Longrightarrow> late_call_ok d \<Longrightarrow> late_call_ok d'"
  by (cases "dpc d"; cases "ctxErr (dctx d)")
    (auto simp: dial_step_def late_call_ok_def split: if_splits)

lemma late_call_step: "step e s = Some s' \<Longrightarrow> late_call i s \<Longrightarrow> late_call i s'"
proof (cases "dialEvent e")
  case False
  assume "step e s = Some s'" "late_call i s"
  then show ?thesis
    using step_not_dial_dials [OF False, of s s'] step_viaErr [of e s s']
    by (simp add: late_call_def)
next
  case True
  assume st: "step e s = Some s'" and l: "late_call i s"
  have f: "fwd s' = fwd s"
    using step_dial_only [OF True st] by (metis system.select_convs(1) system.surjective system.update_convs(9))
  show ?thesis
  proof (cases e)
    case (EvDialContext x)
    then show ?thesis using st l f by (auto simp: late_call_def step_def nth_append split: if_splits)
  next
    case (EvDialCancel j x)
    then show ?thesis using st l f
      by (cases "i = j") (auto simp: late_call_def late_call_ok_def step_def split: if_splits option.splits dial_pc.splits)
  next
    case (EvDial j)
    then show ?thesis using st l f
      by (cases "i = j") (auto simp: late_call_def step_def late_dial_step split: if_splits option.splits)
  qed (use True in simp_all)
qed

lemma viaErr_due_step: "step e s = Some s' \<Longrightarrow> viaErr_due s \<Longrightarrow> viaErr_due s'"
proof (cases "\<exists>x. run s = RunSetViaErr x")
  case False
  assume "step e s = Some s'" "viaErr_due s"
  then have "viaErr (fwd s') = Some (ErrorString ''not currently forwarding'')"
    using False step_viaErr [of e s s'] by (cases "run s") (auto simp: viaErr_due_def)
  then show ?thesis by (cases "run s'") (auto simp: viaErr_due_def)
next
  case True
  then obtain x where x: "run s = RunSetViaErr x" by blast
  assume st: "step e s = Some s'"
  show ?thesis
  proof (cases e)
    case EvRun
    then show ?thesis using st x by (auto simp: step_def run_step_def viaErr_due_def split: if_splits)
  next
    case EvForwardPortsReturn
    then show ?thesis using st x by (auto simp: step_def forwardPorts_return_def split: if_splits)
  next
    case EvWatchCtxDone
    then show ?thesis using st x
      by (cases "watch s") (auto simp: step_def watch_ctxDone_def viaErr_due_def split: if_splits)
  next
    case EvWatchReady
    then show ?thesis using st x
      by (cases "watch s") (auto simp: step_def watch_ready_def viaErr_due_def split: if_splits)
  next
    case EvWatch
    then show ?thesis using st x
      by (cases "watch s")
        (auto simp: step_def watch_step_def viaErr_due_def initCloser_Do_def close_initChan_def
          split: if_splits chan.splits)
  next
    case EvReady
    then show ?thesis using st x by (auto simp: step_def viaErr_due_def split: if_splits chan.splits)
  next
    case (EvCancel y)
    then show ?thesis using st x by (auto simp: step_def viaErr_due_def split: if_splits option.splits)
  next
    case (EvDialContext y)
    then show ?thesis using st x by (auto simp: step_def viaErr_due_def split: if_splits)
  next
    case (EvDialCancel j y)
    then show ?thesis using st x by (auto simp: step_def viaErr_due_def split: if_splits option.splits)
  next
    case (EvDial j)
    then show ?thesis using st x by (auto simp: step_def viaErr_due_def split: if_splits option.splits)
  qed
qed

lemma viaErr_due_exec:
  assumes "exec evs s = Some s'" and "EvForwardPortsReturn \<in> set evs"
  shows "viaErr_due s'"
proof -
  obtain xs ys where evs: "evs = xs @ EvForwardPortsReturn # ys"
    using assms(2) by (auto dest: split_list)
  obtain s1 s2 where s1: "exec xs s = Some s1" and s2: "step EvForwardPortsReturn s1 = Some s2"
    and s': "exec ys s2 = Some s'"
    using assms(1) unfolding evs exec_append by (auto split: option.splits)
  have "viaErr_due s2"
    using s2 by (cases "run s1") (auto simp: step_def forwardPorts_return_def viaErr_due_def split: if_splits)
  with s' show ?thesis
    by (rule exec_invariant) (rule viaErr_due_step)
qed

subsection \<open>Addresses with a host and a port\<close>

lemma fwd_initial: "fwd (initial f c) = f"
  by (simp add: initial_def)

lemma IndexByteString_absent: "c \<notin> set s \<Longrightarrow> IndexByteString s c = None"
  by (induction s) auto

lemma IndexByteString_first: "c \<notin> set a \<Longrightarrow> IndexByteString (a @ c # r) c = Some (length a)"
  by (induction a) auto

lemma LastIndexByteString_last:
  "c \<notin> set r \<Longrightarrow> LastIndexByteString (a @ c # r) c = Some (length a)"
  using IndexByteString_first [of c "rev r" "rev a"]
  by (simp add: LastIndexByteString_def)

lemma SplitHostPort_host_port:
  assumes "set host \<inter> {CHR '':'', CHR ''['', CHR '']''} = {}"
    and "set port \<inter> {CHR '':'', CHR ''['', CHR '']''} = {}"
  shows "SplitHostPort (host @ '':'' @ port) = Inr (host, port)"
proof -
  let ?s = "host @ CHR '':'' # port"
  have last: "LastIndexByteString ?s CHR '':'' = Some (length host)"
    using assms by (intro LastIndexByteString_last) auto
  have first: "take 1 ?s \<noteq> ''[''"
    using assms by (cases host) auto
  have host: "IndexByteString host CHR '':'' = None"
    using assms by (intro IndexByteString_absent) auto
  have l: "IndexByteString ?s CHR ''['' = None"
    using assms by (intro IndexByteString_absent) auto
  have r: "IndexByteString ?s CHR '']'' = None"
    using assms by (intro IndexByteString_absent) auto
  show ?thesis
    using last first host l r by (simp add: SplitHostPort_def)
qed

subsection \<open>\<open>DialContext\<close> as a function and as a thread\<close>

text \<open>A call that runs alone on a forwarder nothing else changes returns what the function
  \<open>DialContext\<close> gives, and stays at its \<^verbatim>\<open>select\<close> when the function blocks.\<close>

lemma DialContext_dial_steps:
  "dpc (dial_steps 4 f \<lparr>dctx = c, dpc = DialSelect\<rparr>)
     = (case DialContext f c of None \<Rightarrow> DialSelect | Some r \<Rightarrow> DialReturned r)"
  by (cases "initChan f"; cases "ctxErr c"; cases "viaErr f")
    (simp_all add: DialContext_def dial_step_def eval_nat_numeral)

subsection \<open>Calls in progress\<close>

text \<open>A call gets past its \<^verbatim>\<open>select\<close> with a live context only when the channel is
  closed, and the channel never reopens; while \<open>Run\<close> is in \<^verbatim>\<open>ForwardPorts\<close> the channel
  is closed only after the address has been stored, and no error is stored.\<close>

lemma run_inv_viaErr:
  "run_inv s \<Longrightarrow>
     viaErr (fwd s) = None \<or> viaErr (fwd s) = Some (ErrorString ''not currently forwarding'')"
  by (cases "run s"; cases "watch s") (auto simp: run_inv_def pristine_def ended_def)

lemma call_inv_mono:
  assumes "call_inv s d"
    and "initChan (fwd s) = Closed \<Longrightarrow> initChan (fwd s') = Closed"
    and "dialerFunc (fwd s') = dialerFunc (fwd s)" and "network (fwd s') = network (fwd s)"
  shows "call_inv s' d"
  using assms by (auto simp: call_inv_def)

lemma call_inv_dial_step:
  assumes "dial_step (fwd s) d = Some d'" and "call_inv s d"
    and "viaErr (fwd s) = None \<or> viaErr (fwd s) = Some (ErrorString ''not currently forwarding'')"
  shows "call_inv s d'"
  using assms
  by (cases "dpc d"; cases "ctxErr (dctx d)"; cases "initChan (fwd s)")
    (auto simp: dial_step_def call_inv_def split: if_splits)

lemma call_inv_fresh_call: "call_inv s \<lparr>dctx = c, dpc = DialSelect\<rparr>"
  by (simp add: call_inv_def)

lemma call_inv_cancelled: "call_inv s (d\<lparr>dctx := (dctx d)\<lparr>ctxErr := Some err\<rparr>\<rparr>)"
  by (simp add: call_inv_def)

lemma calls_inv_step:
  assumes st: "step e s = Some s'" and r: "run_inv s" and c: "calls_inv s"
  shows "calls_inv s'"
proof -
  have old: "call_inv s (dials s ! k)" if "k < length (dials s)" for k
    using c that by (simp add: calls_inv_def)
  have keep: "call_inv s' d" if "call_inv s d" for d
  proof (rule call_inv_mono [OF that])
    show "initChan (fwd s) = Closed \<Longrightarrow> initChan (fwd s') = Closed"
      by (rule step_closed [OF st])
    show "dialerFunc (fwd s') = dialerFunc (fwd s)"
      using step_frame [OF st] by (rule conjE) blast
    show "network (fwd s') = network (fwd s)"
      using step_frame [OF st] by (rule conjE)
  qed
  have new: "call_inv s' (dials s' ! k)" if k: "k < length (dials s')" for k
  proof (cases e)
    case (EvDialContext x)
    then have d: "dials s' = dials s @ [\<lparr>dctx = x, dpc = DialSelect\<rparr>]"
      using st by (simp add: step_def split: if_splits) auto
    show ?thesis
    proof (cases "k < length (dials s)")
      case True
      then show ?thesis using keep [OF old [OF True]] d by (simp add: nth_append)
    next
      case False
      then have "dials s' ! k = \<lparr>dctx = x, dpc = DialSelect\<rparr>"
        using k d by (simp add: nth_append)
      then show ?thesis by (simp add: call_inv_fresh_call)
    qed
  next
    case (EvDialCancel j x)
    then have d: "dials s' = (dials s)[j := (dials s ! j)\<lparr>dctx := (dctx (dials s ! j))\<lparr>ctxErr := Some x\<rparr>\<rparr>]"
      using st by (simp add: step_def split: if_splits option.splits) auto
    show ?thesis
    proof (cases "k = j")
      case True
      then show ?thesis using k d by (simp add: call_inv_cancelled)
    next
      case False
      then show ?thesis using k d keep [OF old [of k]] by simp
    qed
  next
    case (EvDial j)
    then obtain d where d: "j < length (dials s)" "dial_step (fwd s) (dials s ! j) = Some d"
      "dials s' = (dials s)[j := d]"
      using st by (simp add: step_def split: if_splits option.splits) auto
    have "call_inv s d"
      using call_inv_dial_step [OF d(2) old [OF d(1)] run_inv_viaErr [OF r]] .
    then have dj: "call_inv s' d"
      by (rule keep)
    show ?thesis
    proof (cases "k = j")
      case True
      then show ?thesis using k d(3) dj by simp
    next
      case False
      then show ?thesis using k d(3) keep [OF old [of k]] by simp
    qed
  qed (use k keep old step_not_dial_dials [OF _ st] in simp_all)
  show ?thesis
    unfolding calls_inv_def using new by blast
qed

lemma step_into_forwarding:
  assumes "step e s = Some s'" and "run s' = RunForwardPorts lp pf"
  shows "run s = RunForwardPorts lp pf \<or> run s = RunGo lp pf \<and> dials s' = dials s"
proof (cases e)
  case EvRun
  then show ?thesis
    using assms
    by (cases "run s"; cases "initChan (fwd s)")
      (auto simp: step_def run_step_def Let_def initCloser_Do_def close_initChan_def
        split: if_splits sum.splits)
next
  case EvForwardPortsReturn
  then show ?thesis
    using assms by (cases "run s") (auto simp: step_def forwardPorts_return_def split: if_splits)
next
  case EvWatchCtxDone
  then show ?thesis
    using assms by (cases "watch s") (auto simp: step_def watch_ctxDone_def split: if_splits)
next
  case EvWatchReady
  then show ?thesis
    using assms by (cases "watch s") (auto simp: step_def watch_ready_def split: if_splits)
next
  case EvWatch
  then show ?thesis
    using assms
    by (cases "watch s"; cases "initChan (fwd s)")
      (auto simp: step_def watch_step_def initCloser_Do_def close_initChan_def split: if_splits)
next
  case EvReady
  then show ?thesis
    using assms by (auto simp: step_def split: if_splits chan.splits)
next
  case (EvCancel x)
  then show ?thesis
    using assms by (auto simp: step_def split: if_splits option.splits)
next
  case (EvDialContext x)
  then show ?thesis
    using assms by (auto simp: step_def split: if_splits)
next
  case (EvDialCancel j x)
  then show ?thesis
    using assms by (auto simp: step_def split: if_splits option.splits)
next
  case (EvDial j)
  then show ?thesis
    using assms by (auto simp: step_def split: if_splits option.splits)
qed

lemma forwarding_closed_viaAddr:
  assumes "run_inv s" and "run s = RunForwardPorts lp pf" and "initChan (fwd s) = Closed"
  shows "viaAddr (fwd s) = ''127.0.0.1:'' @ lp \<and> readyChan s = Closed \<and> viaErr (fwd s) = None"
  using assms by (cases "watch s") (auto simp: run_inv_def forwarding_def)

lemma forwarding_dial_step:
  assumes d: "dial_step (fwd s) d = Some d'" and c: "call_inv s d"
    and f: "run s = RunForwardPorts lp pf" and r: "run_inv s"
    and ret: "dpc d' = DialReturned x" and l: "ctxErr (dctx d') = None"
  shows "x = dialerFunc (fwd s) (dctx d') (network (fwd s)) (''127.0.0.1:'' @ lp)"
proof -
  have v: "viaErr (fwd s) = None"
    using r f by (simp add: run_inv_def)
  have at: "dpc d = DialDialerFunc" and same: "dctx d' = dctx d"
    and x: "x = dialerFunc (fwd s) (dctx d) (network (fwd s)) (viaAddr (fwd s))"
    using d ret l v
    by (cases "dpc d"; cases "ctxErr (dctx d)"; auto simp: dial_step_def split: if_splits)+
  have "initChan (fwd s) = Closed"
    using c at l same by (simp add: call_inv_def)
  then show ?thesis
    using forwarding_closed_viaAddr [OF r f] x same by simp
qed

lemma forwarding_calls_step:
  assumes st: "step e s = Some s'" and r: "run_inv s" and c: "calls_inv s"
    and fc: "forwarding_calls s"
  shows "forwarding_calls s'"
proof (cases "run s'")
  case (RunForwardPorts lp pf)
  have fr: "dialerFunc (fwd s') = dialerFunc (fwd s)" "network (fwd s') = network (fwd s)"
    using step_frame [OF st] by simp_all
  have goal: "x = dialerFunc (fwd s') (dctx (dials s' ! k)) (network (fwd s')) (''127.0.0.1:'' @ lp)"
    if k: "k < length (dials s')" and ret: "dpc (dials s' ! k) = DialReturned x"
      and l: "ctxErr (dctx (dials s' ! k)) = None" for k x
  proof -
    consider (go) "run s = RunGo lp pf" "dials s' = dials s" | (fw) "run s = RunForwardPorts lp pf"
      using step_into_forwarding [OF st RunForwardPorts] by blast
    then show ?thesis
    proof cases
      case go
      have "initChan (fwd s) = Open"
        using r go(1) by (simp add: run_inv_def pristine_def)
      moreover have "initChan (fwd s) = Closed"
        using c k ret l go(2) by (auto simp: calls_inv_def call_inv_def)
      ultimately show ?thesis by simp
    next
      case fw
      have old: "y = dialerFunc (fwd s) (dctx (dials s ! i)) (network (fwd s)) (''127.0.0.1:'' @ lp)"
        if "i < length (dials s)" "dpc (dials s ! i) = DialReturned y"
          "ctxErr (dctx (dials s ! i)) = None" for i y
        using fc fw that by (simp add: forwarding_calls_def)
      show ?thesis
      proof (cases e)
        case (EvDialContext c')
        then have d: "dials s' = dials s @ [\<lparr>dctx = c', dpc = DialSelect\<rparr>]"
          using st by (simp add: step_def split: if_splits) auto
        have "k < length (dials s)"
          using k ret d by (cases "k < length (dials s)") (auto simp: nth_append)
        then show ?thesis
          using old [of k x] ret l d fr by (simp add: nth_append)
      next
        case (EvDialCancel j err)
        then have d: "dials s' = (dials s)[j := (dials s ! j)\<lparr>dctx := (dctx (dials s ! j))\<lparr>ctxErr := Some err\<rparr>\<rparr>]"
          using st by (simp add: step_def split: if_splits option.splits) auto
        have "k \<noteq> j"
          using k l d by (cases "k = j") auto
        then show ?thesis
          using old [of k x] k ret l d fr by simp
      next
        case (EvDial j)
        then obtain d where d: "j < length (dials s)" "dial_step (fwd s) (dials s ! j) = Some d"
          "dials s' = (dials s)[j := d]"
          using st by (simp add: step_def split: if_splits option.splits) auto
        show ?thesis
        proof (cases "k = j")
          case True
          then have "dials s' ! k = d"
            using d(1,3) by simp
          then show ?thesis
            using forwarding_dial_step [OF d(2) _ fw r, of x] c d(1) ret l fr
            by (simp add: calls_inv_def)
        next
          case False
          then show ?thesis
            using old [of k x] k ret l d(3) fr by simp
        qed
      qed (use old [of k x] k ret l fr step_not_dial_dials [OF _ st] in simp_all)
    qed
  qed
  show ?thesis
    unfolding forwarding_calls_def using RunForwardPorts goal by simp
qed (simp_all add: forwarding_calls_def)

lemma call_invs_initial: "calls_inv (initial f c) \<and> forwarding_calls (initial f c)"
  by (simp add: calls_inv_def forwarding_calls_def initial_def)

lemma call_invs_exec:
  assumes "exec evs s = Some s'"
    and "(once_inv s \<and> run_inv s) \<and> calls_inv s \<and> forwarding_calls s"
  shows "(once_inv s' \<and> run_inv s') \<and> calls_inv s' \<and> forwarding_calls s'"
  using assms
proof (rule exec_invariant)
  fix e t t'
  assume i: "(once_inv t \<and> run_inv t) \<and> calls_inv t \<and> forwarding_calls t"
    and st: "step e t = Some t'"
  have "once_inv t' \<and> run_inv t'"
    using invs_exec [of "[e]" t t'] i st by simp
  moreover have "calls_inv t'"
    using calls_inv_step [OF st] i by blast
  moreover have "forwarding_calls t'"
    using forwarding_calls_step [OF st] i by blast
  ultimately show "(once_inv t' \<and> run_inv t') \<and> calls_inv t' \<and> forwarding_calls t'"
    by blast
qed

lemma exec_viaErr:
  "exec evs s = Some s' \<Longrightarrow> viaErr (fwd s) = Some (ErrorString ''not currently forwarding'')
     \<Longrightarrow> viaErr (fwd s') = Some (ErrorString ''not currently forwarding'')"
  by (erule exec_invariant) (auto dest: step_viaErr)

lemma reach_invs:
  assumes "fresh f" and "exec evs (initial f c) = Some s"
  shows "once_inv s" and "run_inv s" and "calls_inv s" and "forwarding_calls s"
  using call_invs_exec [OF assms(2)] invs_initial [OF assms(1)] call_invs_initial [of f c]
  by blast+

subsection \<open>The fakes\<close>

lemmas fake_defs = fakeForwarder_def fakeListen_def fakeFactory_def fakeDialer_def fakePlatform_def
  failingPortFinder_def failingFactory_def background_def callerCtx_def
  defaultEphemeralPortFinder_def defaultPortForwarderFactory_def defaultDialerFunc_def

lemmas system_defs = initial_def step_def run_step_def forwardPorts_return_def watch_ctxDone_def
  watch_ready_def watch_step_def dial_step_def initCloser_Do_def close_initChan_def runCtxDone_def
  SplitHostPort_def LastIndexByteString_def observe_def


lemma fresh_fakeForwarder: "fresh fakeForwarder"
  by (simp add: fresh_def fakeForwarder_def)

section \<open>The claims\<close>

text \<open>
  C1. By the time \<open>Run\<close> returns, the gate has resolved exactly once and no later call
  of \<open>DialContext\<close> can succeed; when the session factory fails, \<open>Run\<close> returns that
  error and a later call of \<open>DialContext\<close> with a live context returns a terminal error.
  The code does not do the second part. When the factory fails, \<open>Run\<close> returns the
  factory's error and the deferred call closes \<open>initChan\<close>, but \<open>viaErr\<close> is only assigned
  after \<^verbatim>\<open>ForwardPorts\<close> and stays nil: the call of \<open>DialContext\<close> made afterwards passes the
  gate, finds no error, calls the dialer on the empty address and returns the dialer's
  connection.
\<close>

theorem Run_factory_error_then_dial_succeeds:
  "observe (exec [EvRun, EvRun, EvRun, EvRun, EvRun, EvDialContext callerCtx, EvDial 0, EvDial 0, EvDial 0, EvDial 0]
       (initial (fakeForwarder\<lparr>portForwarderFactory := failingFactory\<rparr>) background))
   = Some (RunReturned (Some (ErrorString ''session creation failed'')), WatchNotStarted, Open, Closed, None, [],
           [DialReturned (Inr (''tcp'', []))])"
  by (simp add: fake_defs system_defs)

text \<open>
  C2, as the claim states it, fails in its last part: the waiters do not all observe the
  same resolved state. Two calls of \<open>DialContext\<close> wait on the same gate and are released
  by the same close; one reads \<open>viaErr\<close> before line 223 and returns the dialer's
  connection, the other reads it after and returns \<open>not currently forwarding\<close>.
\<close>

theorem two_waiters_two_outcomes:
  "observe (exec [EvDialContext callerCtx, EvDialContext callerCtx, EvRun, EvRun, EvRun, EvRun,
                  EvReady, EvWatchReady, EvWatch, EvWatch,
                  EvDial 0, EvDial 1, EvDial 0, EvDial 1, EvDial 0, EvDial 0,
                  EvForwardPortsReturn, EvRun, EvRun, EvRun, EvDial 1]
            (initial fakeForwarder background))
   = Some (RunReturned None, WatchReturned, Closed, Closed,
           Some (ErrorString ''not currently forwarding''), ''127.0.0.1:9000'',
           [DialReturned (Inr (''tcp'', ''127.0.0.1:9000'')),
            DialReturned (Inl (ErrorString ''not currently forwarding''))])"
  by (simp add: fake_defs system_defs)

text \<open>
  C2, amended. In every run of the system, whatever the order in which the goroutine and
  the end of \<open>Run\<close> reach \<^verbatim>\<open>initCloser.Do\<close>: nothing panics; \<open>initChan\<close> goes from open to
  closed in at most one step, and in exactly one when it is closed at the end; once the
  channel is closed a further \<^verbatim>\<open>initCloser.Do\<close> changes nothing at all; the channel stays
  closed in every continuation and is closed when \<open>Run\<close> has returned; and every waiter
  observes the same state of the channel: a call that is past its \<^verbatim>\<open>select\<close> with a live
  context finds it closed. What the waiters read behind the channel is not resolved by the
  close: \<open>viaErr\<close> is nil or the fixed error and goes from nil to the fixed error by the
  assignment of line 223, possibly after the close, and never back; so a call with a live
  context returns either the fixed error or a result of the dialer, and two calls released
  by the same close need not return the same.
\<close>

theorem initChan_closed_at_most_once:
  assumes "fresh f" and "exec evs (initial f c) = Some s"
  shows "\<not> panicked s
    \<and> closings evs (initial f c) \<le> 1
    \<and> (closings evs (initial f c) = 1) = (initChan (fwd s) = Closed)
    \<and> (initChan (fwd s) = Closed \<longrightarrow> initCloser_Do s = s)
    \<and> (\<forall>evs' s'. exec evs' s = Some s' \<and> initChan (fwd s) = Closed
          \<longrightarrow> initChan (fwd s') = Closed \<and> closings evs' s = 0)
    \<and> (\<forall>r. run s = RunReturned r \<longrightarrow> initChan (fwd s) = Closed)
    \<and> (\<forall>i. i < length (dials s) \<and> dpc (dials s ! i) \<noteq> DialSelect
          \<and> ctxErr (dctx (dials s ! i)) = None \<longrightarrow> initChan (fwd s) = Closed)
    \<and> (\<forall>i r. i < length (dials s) \<and> dpc (dials s ! i) = DialReturned r
          \<and> ctxErr (dctx (dials s ! i)) = None \<longrightarrow>
          r = Inl (ErrorString ''not currently forwarding'')
          \<or> (\<exists>a. r = dialerFunc f (dctx (dials s ! i)) (network f) a))
    \<and> (viaErr (fwd s) = None \<or> viaErr (fwd s) = Some (ErrorString ''not currently forwarding''))
    \<and> (\<forall>evs' s'. exec evs' s = Some s'
          \<and> viaErr (fwd s) = Some (ErrorString ''not currently forwarding'')
          \<longrightarrow> viaErr (fwd s') = Some (ErrorString ''not currently forwarding''))"
proof -
  note inv = reach_invs [OF assms]
  have frame: "network (fwd s) = network f" "dialerFunc (fwd s) = dialerFunc f"
    using exec_frame [OF assms(2)] by (simp_all add: fwd_initial)
  have start: "initChan (fwd (initial f c)) = Open"
    using assms(1) by (simp add: fresh_def initial_def)
  have count: "closings evs (initial f c) = (if initChan (fwd s) = Closed then 1 else 0)"
    using closings_exec [OF assms(2)] start by simp
  have noop: "initChan (fwd s) = Closed \<longrightarrow> initCloser_Do s = s"
    using inv(1) by (simp add: once_inv_def initCloser_Do_def)
  have later: "\<forall>evs' s'. exec evs' s = Some s' \<and> initChan (fwd s) = Closed
          \<longrightarrow> initChan (fwd s') = Closed \<and> closings evs' s = 0"
    using closings_exec exec_closed by fastforce
  have ret: "\<forall>r. run s = RunReturned r \<longrightarrow> initChan (fwd s) = Closed"
    using inv(2) by (auto simp: run_inv_def)
  have passed: "\<forall>i. i < length (dials s) \<and> dpc (dials s ! i) \<noteq> DialSelect
          \<and> ctxErr (dctx (dials s ! i)) = None \<longrightarrow> initChan (fwd s) = Closed"
    using inv(3) by (auto simp: calls_inv_def call_inv_def)
  have outcome: "\<forall>i r. i < length (dials s) \<and> dpc (dials s ! i) = DialReturned r
          \<and> ctxErr (dctx (dials s ! i)) = None \<longrightarrow>
          r = Inl (ErrorString ''not currently forwarding'')
          \<or> (\<exists>a. r = dialerFunc f (dctx (dials s ! i)) (network f) a)"
    using inv(3) frame by (auto simp: calls_inv_def call_inv_def)
  have err: "viaErr (fwd s) = None \<or> viaErr (fwd s) = Some (ErrorString ''not currently forwarding'')"
    using run_inv_viaErr [OF inv(2)] .
  have errs: "\<forall>evs' s'. exec evs' s = Some s'
          \<and> viaErr (fwd s) = Some (ErrorString ''not currently forwarding'')
          \<longrightarrow> viaErr (fwd s') = Some (ErrorString ''not currently forwarding'')"
    using exec_viaErr by blast
  have first: "\<not> panicked s \<and> closings evs (initial f c) \<le> 1
    \<and> (closings evs (initial f c) = 1) = (initChan (fwd s) = Closed)"
    using inv(1) count by (simp add: once_inv_def)
  show ?thesis
    using first noop later ret passed outcome err errs by blast
qed

theorem initChan_closed_at_most_once_witness:
  "fresh fakeForwarder
   \<and> observe (exec [EvDialContext callerCtx, EvRun, EvRun, EvRun, EvRun, EvReady, EvWatchReady,
                    EvWatch, EvWatch, EvDial 0, EvDial 0, EvDial 0, EvDial 0,
                    EvForwardPortsReturn, EvRun, EvRun, EvRun] (initial fakeForwarder background))
     = Some (RunReturned None, WatchReturned, Closed, Closed,
             Some (ErrorString ''not currently forwarding''), ''127.0.0.1:9000'',
             [DialReturned (Inr (''tcp'', ''127.0.0.1:9000''))])
   \<and> closings [EvDialContext callerCtx, EvRun, EvRun, EvRun, EvRun, EvReady, EvWatchReady,
                EvWatch, EvWatch, EvDial 0, EvDial 0, EvDial 0, EvDial 0,
                EvForwardPortsReturn, EvRun, EvRun, EvRun] (initial fakeForwarder background) = 1"
proof -
  let ?evs = "[EvDialContext callerCtx, EvRun, EvRun, EvRun, EvRun, EvReady, EvWatchReady,
               EvWatch, EvWatch, EvDial 0, EvDial 0, EvDial 0, EvDial 0,
               EvForwardPortsReturn, EvRun, EvRun, EvRun]"
  let ?s = "\<lparr>fwd = fakeForwarder\<lparr>initChan := Closed,
                 viaErr := Some (ErrorString ''not currently forwarding''),
                 viaAddr := ''127.0.0.1:9000''\<rparr>,
             ctx = background, runCtxCancelled = True, readyChan = Closed, initCloser = True,
             panicked = False, run = RunReturned None, watch = WatchReturned,
             dials = [\<lparr>dctx = callerCtx, dpc = DialReturned (Inr (''tcp'', ''127.0.0.1:9000''))\<rparr>]\<rparr>"
  have s: "exec ?evs (initial fakeForwarder background) = Some ?s"
    by (simp add: fake_defs system_defs)
  have "(closings ?evs (initial fakeForwarder background) = 1) = (initChan (fwd ?s) = Closed)"
    using initChan_closed_at_most_once [OF fresh_fakeForwarder s] by blast
  then have c: "closings ?evs (initial fakeForwarder background) = 1"
    by simp
  have o: "observe (exec ?evs (initial fakeForwarder background))
     = Some (RunReturned None, WatchReturned, Closed, Closed,
             Some (ErrorString ''not currently forwarding''), ''127.0.0.1:9000'',
             [DialReturned (Inr (''tcp'', ''127.0.0.1:9000''))])"
    unfolding s by (simp add: observe_def fakeForwarder_def)
  show ?thesis
    using fresh_fakeForwarder o c by blast
qed

text \<open>
  C3, as the claim states it, fails: between the return of \<^verbatim>\<open>ForwardPorts\<close> and the
  assignment of line 223 \<open>viaErr\<close> is still nil. The session has been ready and has
  ended; a call of \<open>DialContext\<close> made then, before \<open>Run\<close> takes its next step, passes
  the closed gate, finds no error and returns the dialer's connection to the stored
  address.
\<close>

theorem dial_between_return_and_viaErr_succeeds:
  "observe (exec [EvRun, EvRun, EvRun, EvRun, EvReady, EvWatchReady, EvWatch, EvWatch,
                  EvForwardPortsReturn,
                  EvDialContext callerCtx, EvDial 0, EvDial 0, EvDial 0, EvDial 0]
            (initial fakeForwarder background))
   = Some (RunSetViaErr None, WatchReturned, Closed, Closed, None, ''127.0.0.1:9000'',
           [DialReturned (Inr (''tcp'', ''127.0.0.1:9000''))])"
  by (simp add: fake_defs system_defs)

text \<open>
  C3, amended. In every run in which the session's \<^verbatim>\<open>ForwardPorts\<close> has returned: while
  \<open>Run\<close> has not yet made the assignment of line 223, that assignment is its next step,
  it can always be taken, and it sets \<open>viaErr\<close> to the fixed error
  \<open>not currently forwarding\<close>; once \<open>Run\<close> is past it, \<open>viaErr\<close> is that error. Once
  \<open>Run\<close> has returned, \<open>DialContext\<close> with a live context returns exactly that error.
  A call of \<open>DialContext\<close> made once \<open>Run\<close> is past the assignment, whatever happens
  meanwhile: never returns a connection; returns the fixed error if it returns while its
  context is live; and never hangs, since it has returned, or can take a step, or the
  channel is still open and \<open>Run\<close> can take a step towards closing it. A call made after
  \<^verbatim>\<open>ForwardPorts\<close> has returned and before the assignment can still return a connection.
\<close>

theorem not_currently_forwarding_after_session:
  assumes "fresh f" and "exec evs (initial f c) = Some s" and "EvForwardPortsReturn \<in> set evs"
  shows "(\<forall>e. run s = RunSetViaErr e \<longrightarrow>
            (\<exists>s'. step EvRun s = Some s' \<and> run s' = RunCtxCancel e
               \<and> viaErr (fwd s') = Some (ErrorString ''not currently forwarding'')))
    \<and> ((\<forall>e. run s \<noteq> RunSetViaErr e) \<longrightarrow>
          viaErr (fwd s) = Some (ErrorString ''not currently forwarding''))
    \<and> (\<forall>r c'. run s = RunReturned r \<and> ctxErr c' = None \<longrightarrow>
          DialContext (fwd s) c' = Some (Inl (ErrorString ''not currently forwarding'')))
    \<and> (\<forall>c' evs' s'. (\<forall>e. run s \<noteq> RunSetViaErr e)
          \<and> exec (EvDialContext c' # evs') s = Some s' \<longrightarrow>
          length (dials s) < length (dials s')
          \<and> (\<forall>x. dpc (dials s' ! length (dials s)) \<noteq> DialReturned (Inr x))
          \<and> (\<forall>x. dpc (dials s' ! length (dials s)) = DialReturned x
                \<and> ctxErr (dctx (dials s' ! length (dials s))) = None
                \<longrightarrow> x = Inl (ErrorString ''not currently forwarding''))
          \<and> ((\<exists>x. dpc (dials s' ! length (dials s)) = DialReturned x)
               \<or> (\<exists>s''. step (EvDial (length (dials s))) s' = Some s'')
               \<or> (initChan (fwd s') = Open \<and> (\<exists>s''. step EvRun s' = Some s''))))"
proof -
  have inv: "once_inv s" "run_inv s"
    using invs_exec [OF assms(2)] invs_initial [OF assms(1)] by auto
  have due: "viaErr_due s"
    using assms(2,3) by (rule viaErr_due_exec)
  have np: "\<not> panicked s"
    using inv(1) by (simp add: once_inv_def)
  have zero: "\<exists>s'. step EvRun s = Some s' \<and> run s' = RunCtxCancel e
               \<and> viaErr (fwd s') = Some (ErrorString ''not currently forwarding'')"
    if "run s = RunSetViaErr e" for e
    using that np by (simp add: step_def run_step_def)
  have one: "viaErr (fwd s) = Some (ErrorString ''not currently forwarding'')"
    if "\<forall>e. run s \<noteq> RunSetViaErr e"
    using due that by (cases "run s") (auto simp: viaErr_due_def)
  have gate: "initChan (fwd s) = Closed \<and> viaErr (fwd s) = Some (ErrorString ''not currently forwarding'')"
    if "run s = RunReturned r" for r
    using that due inv(2) by (auto simp: viaErr_due_def run_inv_def)
  have two: "DialContext (fwd s) c' = Some (Inl (ErrorString ''not currently forwarding''))"
    if "run s = RunReturned r" "ctxErr c' = None" for r c'
    using gate [OF that(1)] that(2) by (simp add: DialContext_def)
  have three: "length (dials s) < length (dials s')
          \<and> (\<forall>x. dpc (dials s' ! length (dials s)) \<noteq> DialReturned (Inr x))
          \<and> (\<forall>x. dpc (dials s' ! length (dials s)) = DialReturned x
                \<and> ctxErr (dctx (dials s' ! length (dials s))) = None
                \<longrightarrow> x = Inl (ErrorString ''not currently forwarding''))
          \<and> ((\<exists>x. dpc (dials s' ! length (dials s)) = DialReturned x)
               \<or> (\<exists>s''. step (EvDial (length (dials s))) s' = Some s'')
               \<or> (initChan (fwd s') = Open \<and> (\<exists>s''. step EvRun s' = Some s'')))"
    if past: "\<forall>e. run s \<noteq> RunSetViaErr e"
      and ex: "exec (EvDialContext c' # evs') s = Some s'" for c' evs' s'
  proof -
    let ?i = "length (dials s)"
    have v: "viaErr (fwd s) = Some (ErrorString ''not currently forwarding'')"
      using one [OF past] .
    obtain s1 where s1: "step (EvDialContext c') s = Some s1" "exec evs' s1 = Some s'"
      using ex by (auto split: option.splits)
    have "late_call ?i s1"
      using s1(1) v by (auto simp: step_def late_call_def late_call_ok_def split: if_splits)
    with s1(2) have l: "late_call ?i s'"
      by (rule exec_invariant) (rule late_call_step)
    have inv': "once_inv s'" "run_inv s'"
      using invs_exec [OF ex] inv by auto
    have np: "\<not> panicked s'"
      using inv'(1) by (simp add: once_inv_def)
    have safe: "length (dials s) < length (dials s')
          \<and> (\<forall>x. dpc (dials s' ! ?i) \<noteq> DialReturned (Inr x))
          \<and> (\<forall>x. dpc (dials s' ! ?i) = DialReturned x \<and> ctxErr (dctx (dials s' ! ?i)) = None
                \<longrightarrow> x = Inl (ErrorString ''not currently forwarding''))"
      using l by (cases "dpc (dials s' ! ?i)"; cases "ctxErr (dctx (dials s' ! ?i))")
        (auto simp: late_call_def late_call_ok_def)
    have runs: "\<exists>s''. step EvRun s' = Some s''" if "initChan (fwd s') = Open"
      using that l inv'(2) np
      by (cases "run s'") (auto simp: late_call_def run_inv_def pristine_def step_def run_step_def)
    have live: "(\<exists>x. dpc (dials s' ! ?i) = DialReturned x)
               \<or> (\<exists>s''. step (EvDial ?i) s' = Some s'')
               \<or> (initChan (fwd s') = Open \<and> (\<exists>s''. step EvRun s' = Some s''))"
      using l np runs
      by (cases "dpc (dials s' ! ?i)"; cases "initChan (fwd s')";
          cases "ctxErr (dctx (dials s' ! ?i))")
        (auto simp: late_call_def late_call_ok_def step_def dial_step_def)
    show ?thesis
      using safe live by blast
  qed
  show ?thesis
    using zero one two three by blast
qed

theorem not_currently_forwarding_after_session_witness:
  "fresh fakeForwarder
   \<and> EvForwardPortsReturn \<in> set [EvRun, EvRun, EvRun, EvRun, EvReady, EvWatchReady, EvWatch, EvWatch,
                                   EvForwardPortsReturn, EvRun, EvRun, EvRun]
   \<and> observe (exec [EvRun, EvRun, EvRun, EvRun, EvReady, EvWatchReady, EvWatch, EvWatch,
                    EvForwardPortsReturn, EvRun, EvRun, EvRun] (initial fakeForwarder background))
     = Some (RunReturned None, WatchReturned, Closed, Closed,
             Some (ErrorString ''not currently forwarding''), ''127.0.0.1:9000'', [])
   \<and> observe (exec [EvRun, EvRun, EvRun, EvRun, EvReady, EvWatchReady, EvWatch, EvWatch,
                    EvForwardPortsReturn, EvRun, EvRun, EvRun,
                    EvDialContext callerCtx, EvDial 0, EvDial 0, EvDial 0]
                (initial fakeForwarder background))
     = Some (RunReturned None, WatchReturned, Closed, Closed,
             Some (ErrorString ''not currently forwarding''), ''127.0.0.1:9000'',
             [DialReturned (Inl (ErrorString ''not currently forwarding''))])
   \<and> observe (exec [EvRun, EvRun, EvRun, EvRun, EvReady, EvWatchReady, EvWatch, EvWatch,
                    EvForwardPortsReturn, EvRun]
                (initial fakeForwarder background))
     = Some (RunCtxCancel None, WatchReturned, Closed, Closed,
             Some (ErrorString ''not currently forwarding''), ''127.0.0.1:9000'', [])"
proof -
  let ?evs = "[EvRun, EvRun, EvRun, EvRun, EvReady, EvWatchReady, EvWatch, EvWatch,
               EvForwardPortsReturn, EvRun, EvRun, EvRun]"
  let ?s = "\<lparr>fwd = fakeForwarder\<lparr>initChan := Closed,
                 viaErr := Some (ErrorString ''not currently forwarding''),
                 viaAddr := ''127.0.0.1:9000''\<rparr>,
             ctx = background, runCtxCancelled = True, readyChan = Closed, initCloser = True,
             panicked = False, run = RunReturned None, watch = WatchReturned, dials = []\<rparr>"
  let ?pre = "[EvRun, EvRun, EvRun, EvRun, EvReady, EvWatchReady, EvWatch, EvWatch,
               EvForwardPortsReturn]"
  let ?t = "\<lparr>fwd = fakeForwarder\<lparr>initChan := Closed, viaAddr := ''127.0.0.1:9000''\<rparr>,
             ctx = background, runCtxCancelled = False, readyChan = Closed, initCloser = True,
             panicked = False, run = RunSetViaErr None, watch = WatchReturned, dials = []\<rparr>"
  have s: "exec ?evs (initial fakeForwarder background) = Some ?s"
    by (simp add: fake_defs system_defs)
  have m: "EvForwardPortsReturn \<in> set ?evs"
    by simp
  have t: "exec ?pre (initial fakeForwarder background) = Some ?t"
    by (simp add: fake_defs system_defs)
  have m': "EvForwardPortsReturn \<in> set ?pre"
    by simp
  have a: "DialContext (fwd ?s) callerCtx = Some (Inl (ErrorString ''not currently forwarding''))"
    using not_currently_forwarding_after_session [OF fresh_fakeForwarder s m]
    by (simp add: callerCtx_def)
  have b: "\<exists>s'. step EvRun ?t = Some s' \<and> run s' = RunCtxCancel None
       \<and> viaErr (fwd s') = Some (ErrorString ''not currently forwarding'')"
    using not_currently_forwarding_after_session [OF fresh_fakeForwarder t m', THEN conjunct1]
    by simp
  show ?thesis
    using a b fresh_fakeForwarder by (simp add: fake_defs system_defs)
qed

text \<open>
  C4. \<open>DialContext\<close> returns the error of a context that is cancelled or expired, whatever
  the gate holds (the result is the same for every value of \<open>viaErr\<close>); otherwise, when
  the gate is closed with an error stored, that error; otherwise, when the gate is closed,
  the result of the injected dialer called with the caller's context, the forwarder's
  network and \<open>viaAddr\<close>; and it blocks while the gate is open and the context live.
\<close>

theorem DialContext_precedence:
  "(ctxErr c = Some e \<longrightarrow>
      DialContext f c = Some (Inl e) \<and> DialContext (f\<lparr>viaErr := v\<rparr>) c = Some (Inl e))
   \<and> (ctxErr c = None \<and> initChan f = Closed \<and> viaErr f = Some e \<longrightarrow>
      DialContext f c = Some (Inl e))
   \<and> (ctxErr c = None \<and> initChan f = Closed \<and> viaErr f = None \<longrightarrow>
      DialContext f c = Some (dialerFunc f c (network f) (viaAddr f)))
   \<and> (ctxErr c = None \<and> initChan f = Open \<longrightarrow> DialContext f c = None)"
  by (simp add: DialContext_def)

theorem DialContext_precedence_witness:
  "ctxErr cancelledCtx = Some Canceled
   \<and> DialContext fakeForwarder cancelledCtx = Some (Inl Canceled)
   \<and> DialContext (fakeForwarder\<lparr>viaErr := Some (ErrorString ''not currently forwarding'')\<rparr>) cancelledCtx
       = Some (Inl Canceled)
   \<and> DialContext (fakeForwarder\<lparr>initChan := Closed,
         viaErr := Some (ErrorString ''not currently forwarding'')\<rparr>) callerCtx
       = Some (Inl (ErrorString ''not currently forwarding''))
   \<and> DialContext (fakeForwarder\<lparr>initChan := Closed, viaAddr := ''127.0.0.1:9000''\<rparr>) callerCtx
       = Some (Inr (''tcp'', ''127.0.0.1:9000''))
   \<and> DialContext fakeForwarder callerCtx = None"
  using DialContext_precedence [of cancelledCtx Canceled fakeForwarder
      "Some (ErrorString ''not currently forwarding'')"]
    DialContext_precedence [of callerCtx "ErrorString ''not currently forwarding''"
      "fakeForwarder\<lparr>initChan := Closed, viaErr := Some (ErrorString ''not currently forwarding'')\<rparr>"]
    DialContext_precedence [of callerCtx Canceled
      "fakeForwarder\<lparr>initChan := Closed, viaAddr := ''127.0.0.1:9000''\<rparr>"]
    DialContext_precedence [of callerCtx Canceled fakeForwarder]
  by (simp add: cancelledCtx_def callerCtx_def fakeForwarder_def defaultDialerFunc_def fakePlatform_def
      fakeDialer_def)

text \<open>
  C5. When the port finder fails, \<open>Run\<close> fails with its error and resolves the gate as
  failed, so that later calls of \<open>DialContext\<close> return that failure. The code returns the
  error and closes \<open>initChan\<close>, but stores no error: \<open>viaErr\<close> stays nil, and the call of
  \<open>DialContext\<close> made afterwards goes on as if the forwarder were ready, calling the
  dialer on the empty address.
\<close>

theorem Run_port_finder_error_leaves_viaErr_nil:
  "observe (exec [EvRun, EvRun, EvRun, EvRun, EvDialContext callerCtx, EvDial 0, EvDial 0, EvDial 0, EvDial 0]
       (initial (fakeForwarder\<lparr>ephemeralPortFinder := failingPortFinder\<rparr>) background))
   = Some (RunReturned (Some (ErrorString ''no free port'')), WatchNotStarted, Open, Closed, None, [],
           [DialReturned (Inr (''tcp'', []))])"
  by (simp add: fake_defs system_defs)

text \<open>
  C6, as the claim states it, fails: an address with a name and a scope and nothing more,
  \<open>podA.ns1\<close>, is rejected.
\<close>

theorem NewPodForwarder_name_scope_rejected:
  "NewPodForwarder fakePlatform ''tcp'' ''podA.ns1''
     = Inl (ErrorString ''unsupported pod address format: podA.ns1'')"
  by (simp add: NewPodForwarder_def parsePodAddr_def SplitN_def genSplit.simps(2))

text \<open>
  C6, amended. \<open>NewPodForwarder\<close> fails with the error
  \<open>unsupported pod address format: <addr>\<close> exactly for the addresses with fewer than
  three parts separated by \<open>.\<close> (fewer than two separators), and returns a forwarder
  for every other address. When it fails it returns no forwarder, so there is nothing to
  call \<open>Run\<close> on.
\<close>

theorem NewPodForwarder_fails_iff_fewer_than_three_parts:
  "(NewPodForwarder p net a = Inl (ErrorString (''unsupported pod address format: '' @ a)))
     = (length (filter (\<lambda>c. c = CHR ''.'') a) < 2)
   \<and> (\<exists>f. NewPodForwarder p net a = Inr f)
     = (2 \<le> length (filter (\<lambda>c. c = CHR ''.'') a))"
proof -
  have fails: "(parsePodAddr a = Inl (ErrorString (''unsupported pod address format: '' @ a)))
     = (length (filter (\<lambda>c. c = CHR ''.'') a) < 2)"
    by (rule parsePodAddr_fails_iff)
  show ?thesis
  proof (cases "parsePodAddr a")
    case (Inl e)
    with parsePodAddr_result [of a] fails show ?thesis
      by (auto simp: NewPodForwarder_def)
  next
    case (Inr r)
    with fails show ?thesis
      by (cases r) (auto simp: NewPodForwarder_def)
  qed
qed




text \<open>
  C8, as the claim states it, fails: where only wildcard addresses can be listened on, the
  port finder fails. It does not listen on a wildcard address.
\<close>

theorem defaultEphemeralPortFinder_not_wildcard:
  "defaultEphemeralPortFinder wildcardListen () = Inl (ErrorString ''listen: address not available'')"
  by (simp add: defaultEphemeralPortFinder_def wildcardListen_def)

text \<open>
  C8, amended. \<open>defaultEphemeralPortFinder\<close> listens on \<^verbatim>\<open>tcp\<close>, \<^verbatim>\<open>127.0.0.1:0\<close>, the
  loopback address with port 0, and on nothing else (two listen functions that agree there
  give the same result). It returns the error of the listen, else the error of closing the
  listener, else the error of splitting the bound address; and when the bound address is
  \<open>host:port\<close> it returns \<open>port\<close> alone.
\<close>

theorem defaultEphemeralPortFinder_listens_on_loopback:
  "(listen ''tcp'' ''127.0.0.1:0'' = Inl e \<longrightarrow> defaultEphemeralPortFinder listen () = Inl e)
   \<and> (listen ''tcp'' ''127.0.0.1:0'' = Inr l \<and> Close l = Some e
        \<longrightarrow> defaultEphemeralPortFinder listen () = Inl e)
   \<and> (listen ''tcp'' ''127.0.0.1:0'' = Inr l \<and> Close l = None \<and> SplitHostPort (Addr l) = Inl e
        \<longrightarrow> defaultEphemeralPortFinder listen () = Inl e)
   \<and> (listen ''tcp'' ''127.0.0.1:0'' = Inr l \<and> Close l = None \<and> Addr l = host @ '':'' @ port
        \<and> set host \<inter> {CHR '':'', CHR ''['', CHR '']''} = {}
        \<and> set port \<inter> {CHR '':'', CHR ''['', CHR '']''} = {}
        \<longrightarrow> defaultEphemeralPortFinder listen () = Inr port)
   \<and> (listen ''tcp'' ''127.0.0.1:0'' = listen' ''tcp'' ''127.0.0.1:0''
        \<longrightarrow> defaultEphemeralPortFinder listen () = defaultEphemeralPortFinder listen' ())"
  using SplitHostPort_host_port [of host port]
  by (auto simp: defaultEphemeralPortFinder_def Let_def)

theorem defaultEphemeralPortFinder_listens_on_loopback_witness:
  "fakeListen ''tcp'' ''127.0.0.1:0'' = Inr \<lparr>Addr = ''127.0.0.1:9000'', Close = None\<rparr>
   \<and> defaultEphemeralPortFinder fakeListen () = Inr ''9000''
   \<and> defaultEphemeralPortFinder
        (\<lambda>net address. Inr \<lparr>Addr = ''127.0.0.1:9000'', Close = Some (ErrorString ''close failed'')\<rparr>) ()
       = Inl (ErrorString ''close failed'')
   \<and> defaultEphemeralPortFinder (\<lambda>net address. Inr \<lparr>Addr = ''127.0.0.1'', Close = None\<rparr>) ()
       = Inl (AddrError ''missing port in address'' ''127.0.0.1'')
   \<and> defaultEphemeralPortFinder wildcardListen () = Inl (ErrorString ''listen: address not available'')"
  using defaultEphemeralPortFinder_listens_on_loopback
      [of fakeListen "ErrorString []" "\<lparr>Addr = ''127.0.0.1:9000'', Close = None\<rparr>"
        "''127.0.0.1''" "''9000''" fakeListen]
    defaultEphemeralPortFinder_listens_on_loopback
      [of "\<lambda>net address. Inr \<lparr>Addr = ''127.0.0.1:9000'', Close = Some (ErrorString ''close failed'')\<rparr>"
        "ErrorString ''close failed''"
        "\<lparr>Addr = ''127.0.0.1:9000'', Close = Some (ErrorString ''close failed'')\<rparr>"
        "''127.0.0.1''" "''9000''" fakeListen]
    defaultEphemeralPortFinder_listens_on_loopback
      [of "\<lambda>net address. Inr \<lparr>Addr = ''127.0.0.1'', Close = None\<rparr>"
        "AddrError ''missing port in address'' ''127.0.0.1''"
        "\<lparr>Addr = ''127.0.0.1'', Close = None\<rparr>"
        "''127.0.0.1''" "''9000''" fakeListen]
    defaultEphemeralPortFinder_listens_on_loopback
      [of wildcardListen "ErrorString ''listen: address not available''"
        "\<lparr>Addr = ''127.0.0.1:9000'', Close = None\<rparr>" "''127.0.0.1''" "''9000''" fakeListen]
  by (simp add: fakeListen_def wildcardListen_def SplitHostPort_def LastIndexByteString_def)

text \<open>
  C9. Taking every event of every call of \<open>DialContext\<close> out of a run, cancellations
  included, gives a run that ends in the same state but for the list of calls; a step of a
  call changes nothing but that list; and in every run the fields \<open>network\<close>, \<open>addr\<close>,
  \<open>podName\<close> and \<open>namespace\<close> of the forwarder stay what they were.
\<close>

theorem DialContext_changes_nothing:
  assumes "exec evs s = Some s'"
  shows "exec (filter (\<lambda>e. \<not> dialEvent e) evs) s = Some (s'\<lparr>dials := dials s\<rparr>)
    \<and> (\<forall>e t t'. dialEvent e \<and> step e t = Some t' \<longrightarrow> t' = t\<lparr>dials := dials t'\<rparr>)
    \<and> network (fwd s') = network (fwd s) \<and> addr (fwd s') = addr (fwd s)
    \<and> podName (fwd s') = podName (fwd s) \<and> namespace (fwd s') = namespace (fwd s)"
proof -
  have "exec (filter (\<lambda>e. \<not> dialEvent e) evs) (s\<lparr>dials := dials s\<rparr>) = Some (s'\<lparr>dials := dials s\<rparr>)"
    using assms by (rule exec_without_dials)
  then have "exec (filter (\<lambda>e. \<not> dialEvent e) evs) s = Some (s'\<lparr>dials := dials s\<rparr>)"
    by simp
  then show ?thesis
    using exec_frame [OF assms] step_dial_only by blast
qed

theorem DialContext_changes_nothing_witness:
  "observe (exec [EvDialContext callerCtx, EvRun, EvRun, EvDialCancel 0 Canceled, EvRun, EvDial 0, EvRun,
                  EvDial 0] (initial fakeForwarder background))
     = Some (RunForwardPorts ''9000'' \<lparr>ForwardPorts = None\<rparr>, WatchSelect ''9000'', Open, Open, None, [],
             [DialReturned (Inl Canceled)])
   \<and> observe (exec (filter (\<lambda>e. \<not> dialEvent e)
                 [EvDialContext callerCtx, EvRun, EvRun, EvDialCancel 0 Canceled, EvRun, EvDial 0, EvRun,
                  EvDial 0]) (initial fakeForwarder background))
     = Some (RunForwardPorts ''9000'' \<lparr>ForwardPorts = None\<rparr>, WatchSelect ''9000'', Open, Open, None, [],
             [])"
proof -
  let ?evs = "[EvDialContext callerCtx, EvRun, EvRun, EvDialCancel 0 Canceled, EvRun, EvDial 0, EvRun,
                  EvDial 0]"
  obtain s where s: "exec ?evs (initial fakeForwarder background) = Some s"
    and o: "observe (Some s) = Some (RunForwardPorts ''9000'' \<lparr>ForwardPorts = None\<rparr>, WatchSelect ''9000'',
       Open, Open, None, [], [DialReturned (Inl Canceled)])"
    by (simp add: fake_defs system_defs)
  have "exec (filter (\<lambda>e. \<not> dialEvent e) ?evs) (initial fakeForwarder background)
      = Some (s\<lparr>dials := dials (initial fakeForwarder background)\<rparr>)"
    using DialContext_changes_nothing [OF s, THEN conjunct1] by simp
  then have "observe (exec (filter (\<lambda>e. \<not> dialEvent e) ?evs) (initial fakeForwarder background))
      = Some (RunForwardPorts ''9000'' \<lparr>ForwardPorts = None\<rparr>, WatchSelect ''9000'', Open, Open, None, [], [])"
    using o by (simp add: observe_def initial_def)
  then show ?thesis
    using s o by simp
qed

text \<open>
  C10. For every address with at least three parts separated by \<open>.\<close>, that is every
  address \<open>name.ns.rest\<close> where \<open>name\<close> and \<open>ns\<close> contain no \<open>.\<close>, \<open>parsePodAddr\<close>
  returns \<open>name\<close> as the pod name and \<open>ns\<close> as the namespace, whatever \<open>rest\<close> is: the
  split stops after two cuts and the third part is never looked at.
\<close>

theorem parsePodAddr_first_two_parts:
  assumes "CHR ''.'' \<notin> set name" and "CHR ''.'' \<notin> set ns"
  shows "parsePodAddr (name @ ''.'' @ ns @ ''.'' @ rest) = Inr (name, ns)"
  using SplitN3_two [OF assms, of rest] by (simp add: parsePodAddr_def)

theorem parsePodAddr_first_two_parts_witness:
  "CHR ''.'' \<notin> set ''a'' \<and> CHR ''.'' \<notin> set ''b''
   \<and> parsePodAddr ''a.b.c.d.e'' = Inr (''a'', ''b'')"
  using parsePodAddr_first_two_parts [of "''a''" "''b''" "''c.d.e''"] by simp

end
